theory Spec2Isabelle
  imports Complex_Main "HOL-Library.Word" "HOL-Library.AList"
begin

unbundle bit_operations_syntax

section \<open>Data model (sf2.types, audio.types)\<close>

text \<open>
  JavaScript numbers that the program only ever fills with integers (offsets, MIDI
  numbers, generator amounts, timestamps in milliseconds) are \<open>int\<close>; numbers that
  take part in floating-point arithmetic (rates, times in seconds, gains) are \<open>real\<close>,
  that is, the arithmetic is the exact one. An optional field \<open>f?: T\<close> is a
  \<open>T option\<close>, \<open>None\<close> being \<open>undefined\<close>.
\<close>

record Range =
  low :: int
  high :: int

record GeneratorMap =
  gen_keyRange :: "Range option"
  gen_velRange :: "Range option"
  sampleID :: "int option"
  pan :: "int option"
  fineTune :: "int option"
  releaseVolEnv :: "int option"

record Zone =
  keyRange :: Range
  velRange :: Range
  generators :: GeneratorMap
  sampleId :: "int option"
  instrumentId :: "int option"

text \<open>The header object stored in a \<open>Sample\<close> (field \<open>end\<close> is \<open>endIdx\<close> here).\<close>

record SampleHeader =
  start :: int
  endIdx :: int
  startLoop :: int
  endLoop :: int
  sampleRate :: int
  originalPitch :: int
  pitchCorrection :: int

record Sample =
  sname :: string
  data :: "16 word list"
  header :: SampleHeader

record SF2Info =
  version :: "int \<times> int"
  soundEngine :: string
  bankName :: string
  romName :: "string option"
  romVersion :: "(int \<times> int) option"
  creationDate :: "string option"
  engineers :: "string option"
  product :: "string option"
  copyright :: "string option"
  comments :: "string option"
  software :: "string option"

record Preset =
  pname :: string
  preset :: int
  bank :: int
  library :: int
  genre :: int
  morphology :: int
  zones :: "Zone list"

record Instrument =
  iname :: string
  izones :: "Zone list"

record SF2Data =
  info :: SF2Info
  samples :: "Sample list"
  presets :: "Preset list"
  instruments :: "Instrument list"

section \<open>PitchCalculator\<close>

text \<open>\<open>adjustForSampleRate\<close>: equal rates return the rate untouched, otherwise the
  rate is multiplied by \<open>sampleRate / contextRate\<close>.\<close>

definition adjustForSampleRate :: "real \<Rightarrow> real \<Rightarrow> real \<Rightarrow> real" where
  "adjustForSampleRate playbackRate sRate contextRate =
     (if sRate = contextRate then playbackRate
      else (let rateFactor = sRate / contextRate in playbackRate * rateFactor))"

text \<open>\<open>calculatePlaybackRate\<close>; the first argument is \<open>audioContext.sampleRate\<close>.
  \<open>zone.generators.fineTune || 0\<close> is 0 for \<open>undefined\<close> (and for 0).\<close>

definition calculatePlaybackRate :: "real \<Rightarrow> int \<Rightarrow> Sample \<Rightarrow> Zone \<Rightarrow> real" where
  "calculatePlaybackRate contextRate note sample zone =
     (let origPitch = originalPitch (header sample);
          pitchCorr = pitchCorrection (header sample);
          fineTuneCents = (case fineTune (generators zone) of None \<Rightarrow> 0 | Some ft \<Rightarrow> ft);
          semitoneDiff = note - origPitch;
          totalCents = semitoneDiff * 100 + pitchCorr + fineTuneCents;
          playbackRate = 2 powr (real_of_int totalCents / 1200)
      in adjustForSampleRate playbackRate (real_of_int (sampleRate (header sample))) contextRate)"

section \<open>EnvelopeCalculator\<close>

definition timecentsToSeconds :: "real \<Rightarrow> real" where
  "timecentsToSeconds timecents = 2 powr (timecents / 1200)"

definition calculateReleaseTime :: "real option \<Rightarrow> real" where
  "calculateReleaseTime relVolEnv =
     (case relVolEnv of
        None \<Rightarrow> 0.2
      | Some tc \<Rightarrow>
          (let releaseTime = timecentsToSeconds tc
           in if releaseTime < 0.01 then 0.01
              else if releaseTime > 10 then 10
              else releaseTime))"

section \<open>SampleManager\<close>

text \<open>An \<open>AudioBuffer\<close> with one channel: its channel data and its sample rate.\<close>

record AudioBuffer =
  channelData :: "real list"
  bufferRate :: int

text \<open>A cache entry; the entry's \<open>size\<close> field is \<open>entrySize\<close> here.\<close>

record CacheEntry =
  buffer :: AudioBuffer
  lastAccessed :: int
  entrySize :: int

text \<open>
  The cache is a JavaScript \<open>Map\<close>: an association list in insertion order, where
  \<open>set\<close> on a present key replaces the value in place and on an absent key appends
  (\<^const>\<open>AList.update\<close>), and \<open>cache.size\<close> is the length of the list.
\<close>

record SampleManager =
  sm_sf2Data :: SF2Data
  cache :: "(int \<times> CacheEntry) list"
  maxCacheSize :: int
  totalMemoryUsage :: int

datatype PlayError =
    SampleNotFound int
  | StereoPairNotFound
  | SampleIdMissing
  | SampleDataNotFound int

text \<open>The constructor: \<open>config.maxCacheSize || 150\<close>.\<close>

definition newSampleManager :: "SF2Data \<Rightarrow> int option \<Rightarrow> SampleManager" where
  "newSampleManager sf2 cfgMaxCacheSize =
     \<lparr>sm_sf2Data = sf2, cache = [],
      maxCacheSize = (case cfgMaxCacheSize of None \<Rightarrow> 150
                      | Some m \<Rightarrow> if m = 0 then 150 else m),
      totalMemoryUsage = 0\<rparr>"

definition getSampleData :: "SF2Data \<Rightarrow> int \<Rightarrow> Sample option" where
  "getSampleData sf2 sid =
     (if sid < 0 \<or> sid \<ge> int (length (samples sf2)) then None
      else Some (samples sf2 ! nat sid))"

definition createAudioBuffer :: "Sample \<Rightarrow> AudioBuffer" where
  "createAudioBuffer sample =
     \<lparr>channelData = map (\<lambda>w. real_of_int (sint w) / 32768) (data sample),
      bufferRate = sampleRate (header sample)\<rparr>"

text \<open>
  The scan of \<open>evictLRU\<close>: \<open>oldestTime\<close> starts at \<open>Infinity\<close> (\<open>None\<close> here), and an
  entry replaces the candidate when its \<open>lastAccessed\<close> is strictly smaller.
\<close>

definition oldestStep :: "int option \<times> int option \<Rightarrow> int \<times> CacheEntry \<Rightarrow> int option \<times> int option" where
  "oldestStep acc ide =
     (if (case snd acc of None \<Rightarrow> True | Some oldestTime \<Rightarrow> lastAccessed (snd ide) < oldestTime)
      then (Some (fst ide), Some (lastAccessed (snd ide)))
      else acc)"

definition oldestScan :: "(int \<times> CacheEntry) list \<Rightarrow> int option \<times> int option" where
  "oldestScan es = foldl oldestStep (None, None) es"

definition evictLRU :: "SampleManager \<Rightarrow> SampleManager" where
  "evictLRU m =
     (case fst (oldestScan (cache m)) of
        None \<Rightarrow> m
      | Some oldestId \<Rightarrow>
          (case map_of (cache m) oldestId of
             None \<Rightarrow> m
           | Some entry \<Rightarrow>
               m\<lparr>totalMemoryUsage := totalMemoryUsage m - entrySize entry,
                  cache := AList.delete oldestId (cache m)\<rparr>))"

text \<open>
  The loop \<open>while (this.cache.size >= this.maxCacheSize) this.evictLRU()\<close>. On an empty
  cache with a capacity below 1 it never ends: the value is then \<open>None\<close>.
\<close>

partial_function (option) evictWhileFull :: "SampleManager \<Rightarrow> SampleManager option" where
  "evictWhileFull m =
     (if int (length (cache m)) \<ge> maxCacheSize m then evictWhileFull (evictLRU m)
      else Some m)"

definition insertEntry :: "int \<Rightarrow> SampleManager \<Rightarrow> int \<Rightarrow> AudioBuffer \<Rightarrow> SampleManager" where
  "insertEntry now m sid buf =
     (let sz = int (length (channelData buf)) * 1 * 4
      in m\<lparr>cache := AList.update sid \<lparr>buffer = buf, lastAccessed = now, entrySize = sz\<rparr> (cache m),
            totalMemoryUsage := totalMemoryUsage m + sz\<rparr>)"

definition addToCache :: "int \<Rightarrow> SampleManager \<Rightarrow> int \<Rightarrow> AudioBuffer \<Rightarrow> SampleManager option" where
  "addToCache now m sid buf =
     (case evictWhileFull m of
        None \<Rightarrow> None
      | Some m' \<Rightarrow> Some (insertEntry now m' sid buf))"

text \<open>\<open>loadSample\<close>; \<open>now\<close> is the value of \<open>Date.now()\<close> during the call.\<close>

definition loadSample :: "int \<Rightarrow> SampleManager \<Rightarrow> int \<Rightarrow> (SampleManager \<times> (PlayError + AudioBuffer)) option" where
  "loadSample now m sid =
     (case map_of (cache m) sid of
        Some cached \<Rightarrow>
          Some (m\<lparr>cache := AList.update sid (cached\<lparr>lastAccessed := now\<rparr>) (cache m)\<rparr>,
                Inr (buffer cached))
      | None \<Rightarrow>
          (case getSampleData (sm_sf2Data m) sid of
             None \<Rightarrow> Some (m, Inl (SampleNotFound sid))
           | Some sample \<Rightarrow>
               (let buf = createAudioBuffer sample
                in case addToCache now m sid buf of
                     None \<Rightarrow> None
                   | Some m' \<Rightarrow> Some (m', Inr buf))))"

text \<open>A sequence of loads, each with the clock value it sees.\<close>

fun loadSamples :: "SampleManager \<Rightarrow> (int \<times> int) list \<Rightarrow> SampleManager option" where
  "loadSamples m [] = Some m"
| "loadSamples m ((now, sid) # reqs) =
     (case loadSample now m sid of
        None \<Rightarrow> None
      | Some (m', _) \<Rightarrow> loadSamples m' reqs)"

definition clearCache :: "SampleManager \<Rightarrow> SampleManager" where
  "clearCache m = m\<lparr>cache := [], totalMemoryUsage := 0\<rparr>"

section \<open>StereoManager and SoundEngine\<close>

text \<open>
  The calls made on the Web Audio nodes of a voice are recorded in the engine's
  \<open>audioLog\<close>, each with the reference of the voice whose nodes it concerns.
  \<open>StopLeft None\<close> is \<open>leftSource.stop()\<close>, \<open>StopLeft (Some t)\<close> is \<open>leftSource.stop(t)\<close>.
\<close>

datatype AudioOp =
    Start real
  | CancelScheduledValues real
  | SetValueAtTime real real
  | LinearRampToValueAtTime real real
  | ExponentialRampToValueAtTime real real
  | StopLeft "real option"
  | StopRight "real option"
  | DisconnectGain
  | DisconnectMerger

text \<open>
  A \<open>Voice\<close> object. \<open>vref\<close> is the identity of the object (\<open>indexOf\<close> compares
  references); \<open>playbackRate\<close> and \<open>initialGain\<close> are the values given to its source
  nodes and to its gain node when it is created.
\<close>

record Voice =
  vref :: nat
  midiNote :: int
  velocity :: int
  startTime :: real
  releaseTime :: "real option"
  isReleasing :: bool
  vzones :: "Zone list"
  playbackRate :: real
  initialGain :: real

text \<open>What a call reads from the audio context: \<open>audioContext.currentTime\<close>, and
  \<open>gainNode.gain.value\<close> of the voice with a given reference.\<close>

record AudioEnv =
  currentTime :: real
  gainValue :: "nat \<Rightarrow> real"

text \<open>
  The registry \<open>voices\<close> is a \<open>Map\<close> from MIDI number to an array of voices (an
  association list in insertion order); \<open>sustainedNotes\<close> is a \<open>Set\<close> (a list in
  insertion order, kept without duplicates by \<open>setAdd\<close>).
\<close>

record SoundEngine =
  ctxSampleRate :: real
  sf2Data :: SF2Data
  voices :: "(int \<times> Voice list) list"
  sustainPedal :: bool
  sustainedNotes :: "int list"
  maxPolyphony :: int
  nextRef :: nat
  audioLog :: "(nat \<times> AudioOp) list"

record EngineStats =
  activeVoices :: int
  sustainedNoteCount :: int
  sustainPedalDown :: bool
  statsMaxPolyphony :: int

text \<open>The constructor: \<open>config.maxPolyphony || 64\<close>.\<close>

definition newSoundEngine :: "real \<Rightarrow> SF2Data \<Rightarrow> int option \<Rightarrow> SoundEngine" where
  "newSoundEngine rate sf2 cfgMaxPolyphony =
     \<lparr>ctxSampleRate = rate, sf2Data = sf2, voices = [], sustainPedal = False,
      sustainedNotes = [],
      maxPolyphony = (case cfgMaxPolyphony of None \<Rightarrow> 64
                      | Some m \<Rightarrow> if m = 0 then 64 else m),
      nextRef = 0, audioLog = []\<rparr>"

definition setAdd :: "int \<Rightarrow> int list \<Rightarrow> int list" where
  "setAdd x xs = (if x \<in> set xs then xs else xs @ [x])"

definition setDelete :: "int \<Rightarrow> int list \<Rightarrow> int list" where
  "setDelete x xs = removeAll x xs"

definition allVoices :: "SoundEngine \<Rightarrow> Voice list" where
  "allVoices s = concat (map snd (voices s))"

definition totalVoices :: "SoundEngine \<Rightarrow> int" where
  "totalVoices s = sum_list (map (\<lambda>e. int (length (snd e))) (voices s))"

definition getStats :: "SoundEngine \<Rightarrow> EngineStats" where
  "getStats s =
     \<lparr>activeVoices = totalVoices s,
      sustainedNoteCount = int (length (sustainedNotes s)),
      sustainPedalDown = sustainPedal s,
      statsMaxPolyphony = maxPolyphony s\<rparr>"

definition zoneMatches :: "int \<Rightarrow> int \<Rightarrow> Zone \<Rightarrow> bool" where
  "zoneMatches note vel zone =
     (let kr = keyRange zone; vr = velRange zone
      in note \<ge> low kr \<and> note \<le> high kr \<and> vel \<ge> low vr \<and> vel \<le> high vr)"

definition selectZones :: "SF2Data \<Rightarrow> int \<Rightarrow> int \<Rightarrow> Zone list" where
  "selectZones sf2 note vel =
     (case presets sf2 of
        [] \<Rightarrow> []
      | pr # _ \<Rightarrow> filter (zoneMatches note vel) (zones pr))"

text \<open>
  \<open>StereoManager.playStereoPair\<close>. The two buffers come from
  \<open>SampleManager.loadSample\<close>, which throws exactly when \<open>getSampleData\<close> finds no
  sample; the cache it fills is the one of section SampleManager and the registry does
  not depend on it. \<open>startT\<close> is \<open>audioContext.currentTime\<close> when the sources are
  started, \<open>r\<close> the reference of the new object.
\<close>

definition playStereoPair ::
  "SoundEngine \<Rightarrow> nat \<Rightarrow> real \<Rightarrow> int \<Rightarrow> int \<Rightarrow> Zone list \<Rightarrow> PlayError + Voice" where
  "playStereoPair s r startT note vel zs =
     (case find (\<lambda>z. pan (generators z) = Some (- 500)) zs of
        None \<Rightarrow> Inl StereoPairNotFound
      | Some leftZone \<Rightarrow>
     (case find (\<lambda>z. pan (generators z) = Some 500) zs of
        None \<Rightarrow> Inl StereoPairNotFound
      | Some rightZone \<Rightarrow>
     (case sampleId leftZone of
        None \<Rightarrow> Inl SampleIdMissing
      | Some leftId \<Rightarrow>
     (case sampleId rightZone of
        None \<Rightarrow> Inl SampleIdMissing
      | Some rightId \<Rightarrow>
     (case getSampleData (sf2Data s) leftId of
        None \<Rightarrow> Inl (SampleNotFound leftId)
      | Some leftSample \<Rightarrow>
     (case getSampleData (sf2Data s) rightId of
        None \<Rightarrow> Inl (SampleNotFound rightId)
      | Some rightSample \<Rightarrow>
          Inr \<lparr>vref = r, midiNote = note, velocity = vel, startTime = startT,
               releaseTime = None, isReleasing = False, vzones = zs,
               playbackRate = calculatePlaybackRate (ctxSampleRate s) note leftSample leftZone,
               initialGain = (real_of_int vel / 127) ^ 2\<rparr>))))))"

subsection \<open>Removing a voice\<close>

text \<open>\<open>voices.splice(voices.indexOf(voice), 1)\<close> for a voice that is in the array.\<close>

fun spliceVoice :: "nat \<Rightarrow> Voice list \<Rightarrow> Voice list" where
  "spliceVoice r [] = []"
| "spliceVoice r (v # vs) = (if vref v = r then vs else v # spliceVoice r vs)"

text \<open>
  The loop of \<open>removeVoice\<close> over the entries of the registry: the first array that
  holds the voice loses it, an array left empty is deleted from the map (the second
  component is then its key), and the loop stops.
\<close>

fun removeFromRegistry :: "nat \<Rightarrow> (int \<times> Voice list) list \<Rightarrow> (int \<times> Voice list) list \<times> int option" where
  "removeFromRegistry r [] = ([], None)"
| "removeFromRegistry r (e # es) =
     (if r \<in> vref ` set (snd e)
      then (let vs = spliceVoice r (snd e)
            in if vs = [] then (es, Some (fst e)) else ((fst e, vs) # es, None))
      else (let res = removeFromRegistry r es in (e # fst res, snd res)))"

definition removeVoice :: "Voice \<Rightarrow> SoundEngine \<Rightarrow> SoundEngine" where
  "removeVoice voice s =
     (let res = removeFromRegistry (vref voice) (voices s)
      in s\<lparr>audioLog := audioLog s @ [(vref voice, DisconnectGain), (vref voice, DisconnectMerger)],
            voices := fst res,
            sustainedNotes := (case snd res of None \<Rightarrow> sustainedNotes s
                               | Some n \<Rightarrow> setDelete n (sustainedNotes s))\<rparr>)"

subsection \<open>Voice stealing\<close>

definition voicePriority :: "real \<Rightarrow> Voice \<Rightarrow> real" where
  "voicePriority now voice =
     (let p0 = 0;
          p1 = (if isReleasing voice then p0 - 1000 else p0);
          p2 = p1 - real_of_int (velocity voice);
          age = now - startTime voice
      in p2 + age * 10)"

text \<open>One step of the scan; \<open>lowestPriority\<close> starts at \<open>Infinity\<close> (\<open>None\<close> here).\<close>

definition stealStep :: "real \<Rightarrow> Voice option \<times> real option \<Rightarrow> Voice \<Rightarrow> Voice option \<times> real option" where
  "stealStep now acc voice =
     (let priority = voicePriority now voice
      in if (case snd acc of None \<Rightarrow> True | Some lowestPriority \<Rightarrow> priority < lowestPriority)
         then (Some voice, Some priority)
         else acc)"

definition stealTarget :: "real \<Rightarrow> SoundEngine \<Rightarrow> Voice option" where
  "stealTarget now s = fst (foldl (stealStep now) (None, None) (allVoices s))"

definition stealOldestVoice :: "AudioEnv \<Rightarrow> SoundEngine \<Rightarrow> SoundEngine" where
  "stealOldestVoice env s =
     (case stealTarget (currentTime env) s of
        None \<Rightarrow> s
      | Some targetVoice \<Rightarrow>
          removeVoice targetVoice
            (s\<lparr>audioLog := audioLog s @
                  [(vref targetVoice, StopLeft None), (vref targetVoice, StopRight None)]\<rparr>))"

definition checkPolyphonyLimit :: "AudioEnv \<Rightarrow> SoundEngine \<Rightarrow> SoundEngine" where
  "checkPolyphonyLimit env s =
     (if totalVoices s \<ge> maxPolyphony s then stealOldestVoice env s else s)"

subsection \<open>Note on\<close>

definition fadeOps :: "AudioEnv \<Rightarrow> Voice \<Rightarrow> (nat \<times> AudioOp) list" where
  "fadeOps env oldVoice =
     (let now = currentTime env; fadeOutTime = 0.02
      in map (Pair (vref oldVoice))
           [CancelScheduledValues now,
            SetValueAtTime (gainValue env (vref oldVoice)) now,
            LinearRampToValueAtTime 0 (now + fadeOutTime),
            StopLeft (Some (now + fadeOutTime)),
            StopRight (Some (now + fadeOutTime))])"

definition fadeExisting :: "AudioEnv \<Rightarrow> SoundEngine \<Rightarrow> int \<Rightarrow> SoundEngine" where
  "fadeExisting env s note =
     (case map_of (voices s) note of
        None \<Rightarrow> s
      | Some existingVoices \<Rightarrow>
          s\<lparr>audioLog := audioLog s @ concat (map (fadeOps env) existingVoices)\<rparr>)"

text \<open>
  \<open>noteOn\<close> is an async function and runs in three parts. The first, \<open>noteOnBegin\<close>, runs
  when the function is called (after \<open>audioContext.resume()\<close> when the context was
  suspended, which changes nothing in the engine): the range checks, the zones, the fade
  of the voices already on the key, the polyphony check, and the entry into
  \<open>playStereoPair\<close>, which suspends at the sample loads. \<open>env\<close> is what this part reads
  from the audio context. A call that has returned is \<open>Returned\<close>.
\<close>

datatype NoteOnCall =
    AwaitsPlay int int "Zone list"
  | AwaitsVoice int "PlayError + Voice"
  | Returned

definition noteOnBegin :: "AudioEnv \<Rightarrow> SoundEngine \<Rightarrow> int \<Rightarrow> int \<Rightarrow> SoundEngine \<times> NoteOnCall" where
  "noteOnBegin env s note vel =
     (if note < 21 \<or> note > 108 then (s, Returned)
      else if vel < 0 \<or> vel > 127 then (s, Returned)
      else (let zs = selectZones (sf2Data s) note vel
            in if zs = [] then (s, Returned)
               else (let s1 = fadeExisting env s note;
                         s2 = checkPolyphonyLimit env s1
                     in (s2, AwaitsPlay note vel zs))))"

text \<open>
  The second part is the rest of \<open>playStereoPair\<close>, once the loads have settled: it
  creates the nodes of the new voice and starts its sources at \<open>startT\<close>, the clock at
  that moment, or it fails, and a failure met before the loads is seen here too.
\<close>

definition startVoice ::
  "real \<Rightarrow> SoundEngine \<Rightarrow> int \<Rightarrow> int \<Rightarrow> Zone list \<Rightarrow> SoundEngine \<times> (PlayError + Voice)" where
  "startVoice startT s note vel zs =
     (case playStereoPair s (nextRef s) startT note vel zs of
        Inl err \<Rightarrow> (s, Inl err)
      | Inr voice \<Rightarrow>
          (s\<lparr>nextRef := Suc (nextRef s),
             audioLog := audioLog s @ [(vref voice, Start (startTime voice))]\<rparr>,
           Inr voice))"

text \<open>
  The third part is the rest of \<open>noteOn\<close>, resumed with the result of \<open>playStereoPair\<close>:
  the voice is pushed on the array of its key and the key leaves the sustained notes; a
  failure is caught and logged, and no voice is registered.
\<close>

definition registerVoice :: "SoundEngine \<Rightarrow> int \<Rightarrow> Voice \<Rightarrow> SoundEngine" where
  "registerVoice s note voice =
     s\<lparr>voices := (case map_of (voices s) note of
                    None \<Rightarrow> voices s @ [(note, [voice])]
                  | Some vs \<Rightarrow> AList.update note (vs @ [voice]) (voices s)),
       sustainedNotes := setDelete note (sustainedNotes s)\<rparr>"

definition noteOnResume :: "SoundEngine \<Rightarrow> int \<Rightarrow> PlayError + Voice \<Rightarrow> SoundEngine" where
  "noteOnResume s note res =
     (case res of Inl err \<Rightarrow> s | Inr voice \<Rightarrow> registerVoice s note voice)"

text \<open>A suspended call runs its next part; \<open>t\<close> is the clock when it does.\<close>

definition continueCall :: "real \<Rightarrow> SoundEngine \<Rightarrow> NoteOnCall \<Rightarrow> SoundEngine \<times> NoteOnCall" where
  "continueCall t s c =
     (case c of
        AwaitsPlay note vel zs \<Rightarrow>
          (let r = startVoice t s note vel zs in (fst r, AwaitsVoice note (snd r)))
      | AwaitsVoice note res \<Rightarrow> (noteOnResume s note res, Returned)
      | Returned \<Rightarrow> (s, Returned))"

text \<open>
  A call of \<open>noteOn\<close> that is awaited, with nothing else running before it returns: the
  three parts one after the other.
\<close>

definition noteOn :: "AudioEnv \<Rightarrow> real \<Rightarrow> SoundEngine \<Rightarrow> int \<Rightarrow> int \<Rightarrow> SoundEngine" where
  "noteOn env startT s note vel =
     (let b = noteOnBegin env s note vel;
          p = continueCall startT (fst b) (snd b);
          r = continueCall startT (fst p) (snd p)
      in fst r)"

subsection \<open>Release, note off, sustain pedal\<close>

definition getReleaseTime :: "Voice \<Rightarrow> real" where
  "getReleaseTime voice =
     (case vzones voice of
        [] \<Rightarrow> calculateReleaseTime None
      | z # _ \<Rightarrow> calculateReleaseTime (map_option real_of_int (releaseVolEnv (generators z))))"

text \<open>The body of the loop of \<open>releaseNote\<close> for one voice: the voice after it, and
  the calls it makes on the voice's nodes.\<close>

definition releaseVoice :: "AudioEnv \<Rightarrow> Voice \<Rightarrow> Voice \<times> (nat \<times> AudioOp) list" where
  "releaseVoice env voice =
     (if isReleasing voice then (voice, [])
      else (let now = currentTime env;
                relTime = getReleaseTime voice;
                currentGain = gainValue env (vref voice);
                targetGain = 0.0001
            in (voice\<lparr>isReleasing := True, releaseTime := Some (now + relTime)\<rparr>,
                map (Pair (vref voice))
                  ([CancelScheduledValues now]
                   @ (if currentGain \<le> targetGain
                      then [SetValueAtTime currentGain now,
                            LinearRampToValueAtTime 0 (now + 0.01)]
                      else [SetValueAtTime currentGain now,
                            ExponentialRampToValueAtTime targetGain (now + relTime)])
                   @ [StopLeft (Some (now + relTime + 0.1)),
                      StopRight (Some (now + relTime + 0.1))]))))"

definition releaseNote :: "AudioEnv \<Rightarrow> SoundEngine \<Rightarrow> int \<Rightarrow> SoundEngine" where
  "releaseNote env s note =
     (case map_of (voices s) note of
        None \<Rightarrow> s
      | Some noteVoices \<Rightarrow>
          if noteVoices = [] then s
          else (let rs = map (releaseVoice env) noteVoices
                in s\<lparr>voices := AList.update note (map fst rs) (voices s),
                      audioLog := audioLog s @ concat (map snd rs)\<rparr>))"

definition noteOff :: "AudioEnv \<Rightarrow> SoundEngine \<Rightarrow> int \<Rightarrow> SoundEngine" where
  "noteOff env s note =
     (case map_of (voices s) note of
        None \<Rightarrow> s
      | Some noteVoices \<Rightarrow>
          if noteVoices = [] then s
          else if sustainPedal s then s\<lparr>sustainedNotes := setAdd note (sustainedNotes s)\<rparr>
          else releaseNote env s note)"

definition setSustainPedal :: "AudioEnv \<Rightarrow> SoundEngine \<Rightarrow> bool \<Rightarrow> SoundEngine" where
  "setSustainPedal env s isDown =
     (let s1 = s\<lparr>sustainPedal := isDown\<rparr>
      in if \<not> isDown
         then (foldl (releaseNote env) s1 (sustainedNotes s1))\<lparr>sustainedNotes := []\<rparr>
         else s1)"

definition allNotesOff :: "AudioEnv \<Rightarrow> SoundEngine \<Rightarrow> SoundEngine" where
  "allNotesOff env s =
     (foldl (releaseNote env) s (map fst (voices s)))\<lparr>sustainedNotes := []\<rparr>"

definition panic :: "SoundEngine \<Rightarrow> SoundEngine" where
  "panic s =
     s\<lparr>audioLog := audioLog s @
          concat (map (\<lambda>v. [(vref v, StopLeft None), (vref v, StopRight None)]) (allVoices s)),
       voices := [], sustainedNotes := []\<rparr>"

subsection \<open>Sequences of calls\<close>

text \<open>
  The calls the engine receives, each run to its end before the next one starts;
  \<open>VoiceEnded\<close> is the \<open>onended\<close> handler of a voice's left source, which removes the
  voice.
\<close>

datatype Event =
    NoteOn AudioEnv real int int
  | NoteOff AudioEnv int
  | SetSustainPedal AudioEnv bool
  | VoiceEnded Voice
  | AllNotesOff AudioEnv
  | Panic

fun applyEvent :: "SoundEngine \<Rightarrow> Event \<Rightarrow> SoundEngine" where
  "applyEvent s (NoteOn env startT note vel) = noteOn env startT s note vel"
| "applyEvent s (NoteOff env note) = noteOff env s note"
| "applyEvent s (SetSustainPedal env isDown) = setSustainPedal env s isDown"
| "applyEvent s (VoiceEnded voice) = removeVoice voice s"
| "applyEvent s (AllNotesOff env) = allNotesOff env s"
| "applyEvent s Panic = panic s"

definition runEvents :: "SoundEngine \<Rightarrow> Event list \<Rightarrow> SoundEngine" where
  "runEvents s evs = foldl applyEvent s evs"

subsection \<open>Calls of noteOn that overlap\<close>

text \<open>
  Nothing makes a caller wait for a call of \<open>noteOn\<close> to return before it makes the next
  one: the handler of MIDI note-on events does not await it, and the calls of \<open>playNote\<close>
  that wait for the audio context to resume all go on together. The calls made so far
  are kept with the engine, each with the part it has reached. In a \<open>Turn\<close>, either a new
  call runs its first part, or the call of a given index runs its next part, or another
  call of the engine runs from start to end.
\<close>

record Runtime =
  engine :: SoundEngine
  calls :: "NoteOnCall list"

datatype Turn =
    Begin AudioEnv int int
  | Continue nat real
  | Whole Event

definition startRuntime :: "SoundEngine \<Rightarrow> Runtime" where
  "startRuntime s = \<lparr>engine = s, calls = []\<rparr>"

fun turn :: "Runtime \<Rightarrow> Turn \<Rightarrow> Runtime" where
  "turn rt (Begin env note vel) =
     (let b = noteOnBegin env (engine rt) note vel
      in \<lparr>engine = fst b, calls = calls rt @ [snd b]\<rparr>)"
| "turn rt (Continue i t) =
     (if i < length (calls rt)
      then (let p = continueCall t (engine rt) (calls rt ! i)
            in \<lparr>engine = fst p, calls = (calls rt)[i := snd p]\<rparr>)
      else rt)"
| "turn rt (Whole ev) = rt\<lparr>engine := applyEvent (engine rt) ev\<rparr>"

definition runTurns :: "Runtime \<Rightarrow> Turn list \<Rightarrow> Runtime" where
  "runTurns rt ts = foldl turn rt ts"

section \<open>SF2Parser\<close>

text \<open>
  The input \<open>ArrayBuffer\<close> is a list of bytes. Everything \<open>parse\<close> can throw is a
  value of \<open>ParseError\<close>: \<open>RangeError\<close> is a \<open>DataView\<close> or typed-array access outside
  the buffer, \<open>TypeError\<close> a property read on \<open>undefined\<close>, the others are the
  \<open>Error\<close>s the parser throws itself, with the text they quote; \<open>SF2ParseError\<close> is
  the wrapping done by the \<open>catch\<close> of \<open>parse\<close>.
\<close>

type_synonym bytes = "8 word list"

datatype ParseError =
    RangeError
  | TypeError
  | InvalidRIFF string
  | InvalidSfbk string
  | ChunkNotFound string
  | ExpectedSmpl string
  | RequiredChunkMissing string
  | InvalidSDTASize
  | SF2ParseError ParseError

text \<open>A warning written with \<open>console.warn\<close>: sample index, name, start, end, maximum.\<close>

datatype Warning = InvalidIndices nat string int int int

definition bindE :: "'e + 'a \<Rightarrow> ('a \<Rightarrow> 'e + 'b) \<Rightarrow> 'e + 'b" where
  "bindE m f = (case m of Inl e \<Rightarrow> Inl e | Inr x \<Rightarrow> f x)"

subsection \<open>DataView\<close>

definition getUint8 :: "bytes \<Rightarrow> nat \<Rightarrow> ParseError + nat" where
  "getUint8 b off = (if off + 1 \<le> length b then Inr (unat (b ! off)) else Inl RangeError)"

definition getInt8 :: "bytes \<Rightarrow> nat \<Rightarrow> ParseError + int" where
  "getInt8 b off = (if off + 1 \<le> length b then Inr (sint (b ! off)) else Inl RangeError)"

text \<open>Little-endian reads.\<close>

definition getUint16 :: "bytes \<Rightarrow> nat \<Rightarrow> ParseError + nat" where
  "getUint16 b off =
     (if off + 2 \<le> length b
      then Inr (unat (b ! off) + 256 * unat (b ! (off + 1)))
      else Inl RangeError)"

definition getUint32 :: "bytes \<Rightarrow> nat \<Rightarrow> ParseError + nat" where
  "getUint32 b off =
     (if off + 4 \<le> length b
      then Inr (unat (b ! off) + 256 * unat (b ! (off + 1))
                + 65536 * unat (b ! (off + 2)) + 16777216 * unat (b ! (off + 3)))
      else Inl RangeError)"

text \<open>\<open>String.fromCharCode\<close> of a byte is the character with that code.\<close>

definition readFourCC :: "bytes \<Rightarrow> nat \<Rightarrow> ParseError + string" where
  "readFourCC b off =
     bindE (getUint8 b off) (\<lambda>c0.
     bindE (getUint8 b (off + 1)) (\<lambda>c1.
     bindE (getUint8 b (off + 2)) (\<lambda>c2.
     bindE (getUint8 b (off + 3)) (\<lambda>c3.
       Inr [char_of c0, char_of c1, char_of c2, char_of c3]))))"

text \<open>\<open>readString\<close>: at most \<open>maxLength\<close> bytes, up to the first zero byte.\<close>

fun readString :: "bytes \<Rightarrow> nat \<Rightarrow> nat \<Rightarrow> ParseError + string" where
  "readString b off 0 = Inr []"
| "readString b off (Suc maxLength) =
     (case getUint8 b off of
        Inl e \<Rightarrow> Inl e
      | Inr c \<Rightarrow>
          if c = 0 then Inr []
          else (case readString b (Suc off) maxLength of
                  Inl e \<Rightarrow> Inl e
                | Inr str \<Rightarrow> Inr (char_of c # str)))"

text \<open>
  \<open>new Int16Array(buffer, byteOffset, length)\<close>: the offset must be even and the
  \<open>length\<close> elements (a fractional length is truncated) must lie in the buffer; the
  elements are read in the byte order of the platform, little-endian here.
\<close>

definition int16Array :: "bytes \<Rightarrow> nat \<Rightarrow> nat \<Rightarrow> ParseError + 16 word list" where
  "int16Array b byteOffset len =
     (if byteOffset mod 2 \<noteq> 0 \<or> byteOffset + 2 * len > length b then Inl RangeError
      else Inr (map (\<lambda>i. word_of_nat (unat (b ! (byteOffset + 2 * i))
                                       + 256 * unat (b ! (byteOffset + 2 * i + 1))))
                  [0..<len]))"

text \<open>\<open>xs.slice(s, e)\<close> for indices that are not negative.\<close>

definition slice_list :: "'a list \<Rightarrow> nat \<Rightarrow> nat \<Rightarrow> 'a list" where
  "slice_list xs s e = drop s (take e xs)"

text \<open>
  \<open>for (let i = i0; i < bound; i++) acc.push(body(i))\<close>, the bound being a
  floating-point number (\<open>chunk.size / 46 - 1\<close>); an exception in the body ends the
  loop.
\<close>

function forLoop :: "real \<Rightarrow> nat \<Rightarrow> (nat \<Rightarrow> ParseError + 'a) \<Rightarrow> 'a list \<Rightarrow> ParseError + 'a list" where
  "forLoop bound i body acc =
     (if real i < bound
      then (case body i of
              Inl e \<Rightarrow> Inl e
            | Inr x \<Rightarrow> forLoop bound (Suc i) body (acc @ [x]))
      else Inr acc)"
  by pat_completeness auto
termination
proof (relation "measure (\<lambda>(bound, i, body, acc). nat \<lceil>bound\<rceil> - i)")
  show "wf (measure (\<lambda>(bound, i, body, acc). nat \<lceil>bound\<rceil> - i))"
    by simp
next
  fix bound :: real and i :: nat and body :: "nat \<Rightarrow> ParseError + 'a" and acc :: "'a list" and x :: 'a
  assume "real i < bound"
  then have "int i < \<lceil>bound\<rceil>"
    by (simp add: less_ceiling_iff)
  then show "((bound, Suc i, body, acc @ [x]), (bound, i, body, acc))
               \<in> measure (\<lambda>(bound, i, body, acc). nat \<lceil>bound\<rceil> - i)"
    by simp
qed

subsection \<open>Header and top-level chunks\<close>

definition validateRIFF :: "bytes \<Rightarrow> ParseError + unit" where
  "validateRIFF b =
     bindE (readFourCC b 0) (\<lambda>riff.
       if riff \<noteq> ''RIFF'' then Inl (InvalidRIFF riff)
       else bindE (getUint32 b 4) (\<lambda>fileSize.
            bindE (readFourCC b 8) (\<lambda>sfbk.
              if sfbk \<noteq> ''sfbk'' then Inl (InvalidSfbk sfbk)
              else Inr ())))"

text \<open>The offsets of the three lists; while they are looked for, \<open>None\<close> is \<open>-1\<close>.\<close>

record Chunks =
  INFO :: nat
  SDTA :: nat
  PDTA :: nat

type_synonym ChunkSearch = "nat option \<times> nat option \<times> nat option"

definition findChunksStep :: "bytes \<Rightarrow> nat \<Rightarrow> ChunkSearch \<Rightarrow> ParseError + nat \<times> ChunkSearch" where
  "findChunksStep b currentOffset chunks =
     bindE (readFourCC b currentOffset) (\<lambda>listID.
     bindE (getUint32 b (currentOffset + 4)) (\<lambda>listSize.
     bindE (readFourCC b (currentOffset + 8)) (\<lambda>listType.
       Inr (currentOffset + 8 + listSize,
            (case chunks of (i, s, p) \<Rightarrow>
               if listID = ''LIST''
               then (if listType = ''INFO'' then (Some currentOffset, s, p)
                     else if listType = ''sdta'' then (i, Some currentOffset, p)
                     else if listType = ''pdta'' then (i, s, Some currentOffset)
                     else chunks)
               else chunks)))))"

function findChunksLoop :: "bytes \<Rightarrow> nat \<Rightarrow> ChunkSearch \<Rightarrow> ParseError + ChunkSearch" where
  "findChunksLoop b currentOffset chunks =
     (if currentOffset + 8 < length b
      then (case findChunksStep b currentOffset chunks of
              Inl e \<Rightarrow> Inl e
            | Inr (next, chunks') \<Rightarrow> findChunksLoop b next chunks')
      else Inr chunks)"
  by pat_completeness auto
termination
  by (relation "measure (\<lambda>(b, currentOffset, chunks). length b - currentOffset)")
     (auto simp: findChunksStep_def bindE_def split: sum.splits)

definition findChunks :: "bytes \<Rightarrow> ParseError + Chunks" where
  "findChunks b =
     bindE (findChunksLoop b 12 (None, None, None)) (\<lambda>chunks.
       case chunks of (i, s, p) \<Rightarrow>
         (case i of None \<Rightarrow> Inl (ChunkNotFound ''INFO'') | Some infoOff \<Rightarrow>
         (case s of None \<Rightarrow> Inl (ChunkNotFound ''SDTA'') | Some sdtaOff \<Rightarrow>
         (case p of None \<Rightarrow> Inl (ChunkNotFound ''PDTA'') | Some pdtaOff \<Rightarrow>
            Inr \<lparr>INFO = infoOff, SDTA = sdtaOff, PDTA = pdtaOff\<rparr>))))"

subsection \<open>INFO\<close>

definition emptyInfo :: SF2Info where
  "emptyInfo = \<lparr>version = (0, 0), soundEngine = [], bankName = [],
                 romName = None, romVersion = None, creationDate = None,
                 engineers = None, product = None, copyright = None,
                 comments = None, software = None\<rparr>"

text \<open>The \<open>switch\<close> of \<open>parseINFO\<close> on a sub-chunk whose data starts at \<open>off\<close>.\<close>

definition parseInfoField :: "bytes \<Rightarrow> string \<Rightarrow> nat \<Rightarrow> nat \<Rightarrow> SF2Info \<Rightarrow> ParseError + SF2Info" where
  "parseInfoField b chunkID off chunkSize infoRec =
     (if chunkID = ''ifil'' then
        bindE (getUint16 b off) (\<lambda>major.
        bindE (getUint16 b (off + 2)) (\<lambda>minor.
          Inr (infoRec\<lparr>version := (int major, int minor)\<rparr>)))
      else if chunkID = ''isng'' then
        bindE (readString b off chunkSize) (\<lambda>str. Inr (infoRec\<lparr>soundEngine := str\<rparr>))
      else if chunkID = ''INAM'' then
        bindE (readString b off chunkSize) (\<lambda>str. Inr (infoRec\<lparr>bankName := str\<rparr>))
      else if chunkID = ''irom'' then
        bindE (readString b off chunkSize) (\<lambda>str. Inr (infoRec\<lparr>romName := Some str\<rparr>))
      else if chunkID = ''iver'' then
        bindE (getUint16 b off) (\<lambda>major.
        bindE (getUint16 b (off + 2)) (\<lambda>minor.
          Inr (infoRec\<lparr>romVersion := Some (int major, int minor)\<rparr>)))
      else if chunkID = ''ICRD'' then
        bindE (readString b off chunkSize) (\<lambda>str. Inr (infoRec\<lparr>creationDate := Some str\<rparr>))
      else if chunkID = ''IENG'' then
        bindE (readString b off chunkSize) (\<lambda>str. Inr (infoRec\<lparr>engineers := Some str\<rparr>))
      else if chunkID = ''IPRD'' then
        bindE (readString b off chunkSize) (\<lambda>str. Inr (infoRec\<lparr>product := Some str\<rparr>))
      else if chunkID = ''ICOP'' then
        bindE (readString b off chunkSize) (\<lambda>str. Inr (infoRec\<lparr>copyright := Some str\<rparr>))
      else if chunkID = ''ICMT'' then
        bindE (readString b off chunkSize) (\<lambda>str. Inr (infoRec\<lparr>comments := Some str\<rparr>))
      else if chunkID = ''ISFT'' then
        bindE (readString b off chunkSize) (\<lambda>str. Inr (infoRec\<lparr>software := Some str\<rparr>))
      else Inr infoRec)"

definition parseINFOStep :: "bytes \<Rightarrow> nat \<Rightarrow> SF2Info \<Rightarrow> ParseError + nat \<times> SF2Info" where
  "parseINFOStep b currentOffset infoRec =
     bindE (readFourCC b currentOffset) (\<lambda>chunkID.
     bindE (getUint32 b (currentOffset + 4)) (\<lambda>chunkSize.
     bindE (parseInfoField b chunkID (currentOffset + 8) chunkSize infoRec) (\<lambda>infoRec'.
       Inr (currentOffset + 8 + chunkSize, infoRec'))))"

function parseINFOLoop :: "bytes \<Rightarrow> nat \<Rightarrow> nat \<Rightarrow> SF2Info \<Rightarrow> ParseError + SF2Info" where
  "parseINFOLoop b endOffset currentOffset infoRec =
     (if currentOffset + 8 < endOffset
      then (case parseINFOStep b currentOffset infoRec of
              Inl e \<Rightarrow> Inl e
            | Inr (next, infoRec') \<Rightarrow> parseINFOLoop b endOffset next infoRec')
      else Inr infoRec)"
  by pat_completeness auto
termination
  by (relation "measure (\<lambda>(b, endOffset, currentOffset, infoRec). endOffset - currentOffset)")
     (auto simp: parseINFOStep_def bindE_def split: sum.splits)

definition parseINFO :: "bytes \<Rightarrow> nat \<Rightarrow> ParseError + SF2Info" where
  "parseINFO b off =
     bindE (getUint32 b (off + 4)) (\<lambda>listSize.
       parseINFOLoop b (off + 8 + listSize) (off + 12) emptyInfo)"

subsection \<open>SDTA\<close>

text \<open>\<open>parseSDTA\<close> builds the view of the sample block and returns an empty array.\<close>

definition parseSDTA :: "bytes \<Rightarrow> nat \<Rightarrow> ParseError + Sample list" where
  "parseSDTA b off =
     bindE (getUint32 b (off + 4)) (\<lambda>listSize.
     bindE (readFourCC b (off + 12)) (\<lambda>smplID.
       if smplID \<noteq> ''smpl'' then Inl (ExpectedSmpl smplID)
       else bindE (getUint32 b (off + 12 + 4)) (\<lambda>smplSize.
            bindE (int16Array b (off + 12 + 8) (smplSize div 2)) (\<lambda>sampleData.
              Inr []))))"

subsection \<open>Sample headers\<close>

text \<open>A parsed \<open>shdr\<close> record: \<open>SampleHeader & { name: string }\<close>.\<close>

record RawSampleHeader = SampleHeader +
  sampleLink :: int
  sampleType :: int
  hname :: string

definition readSampleHeader :: "bytes \<Rightarrow> nat \<Rightarrow> ParseError + RawSampleHeader" where
  "readSampleHeader b off =
     bindE (readString b off 20) (\<lambda>nm.
     bindE (getUint32 b (off + 20)) (\<lambda>st.
     bindE (getUint32 b (off + 24)) (\<lambda>en.
     bindE (getUint32 b (off + 28)) (\<lambda>stLoop.
     bindE (getUint32 b (off + 32)) (\<lambda>enLoop.
     bindE (getUint32 b (off + 36)) (\<lambda>rate.
     bindE (getUint8 b (off + 40)) (\<lambda>pitch.
     bindE (getInt8 b (off + 41)) (\<lambda>corr.
     bindE (getUint16 b (off + 42)) (\<lambda>link.
     bindE (getUint16 b (off + 44)) (\<lambda>ty.
       Inr \<lparr>start = int st, endIdx = int en, startLoop = int stLoop, endLoop = int enLoop,
            sampleRate = int rate, originalPitch = int pitch, pitchCorrection = corr,
            sampleLink = int link, sampleType = int ty, hname = nm\<rparr>))))))))))"

text \<open>A chunk found in the \<open>pdta\<close> list: where its data starts, and its size.\<close>

record Chunk =
  offset :: nat
  csize :: nat

definition parseSampleHeaders :: "bytes \<Rightarrow> Chunk \<Rightarrow> ParseError + RawSampleHeader list" where
  "parseSampleHeaders b chunk =
     (let count = real (csize chunk) / 46
      in forLoop (count - 1) 0 (\<lambda>i. readSampleHeader b (offset chunk + i * 46)) [])"

subsection \<open>Bags, generators, zones\<close>

record Bag =
  genIndex :: nat
  modIndex :: nat

definition parseBags :: "bytes \<Rightarrow> Chunk \<Rightarrow> ParseError + Bag list" where
  "parseBags b chunk =
     (let count = real (csize chunk) / 4
      in forLoop count 0
           (\<lambda>i. let off = offset chunk + i * 4
                 in bindE (getUint16 b off) (\<lambda>g.
                    bindE (getUint16 b (off + 2)) (\<lambda>m.
                      Inr \<lparr>genIndex = g, modIndex = m\<rparr>)))
           [])"

text \<open>The amount of a generator: a number, or a range for key range and velocity
  range.\<close>

datatype GenAmount = Num int | RangeAmount Range

record Generator =
  gtype :: nat
  amount :: GenAmount

definition parseGenerators :: "bytes \<Rightarrow> Chunk \<Rightarrow> ParseError + Generator list" where
  "parseGenerators b chunk =
     (let count = real (csize chunk) / 4
      in forLoop count 0
           (\<lambda>i. let off = offset chunk + i * 4
                 in bindE (getUint16 b off) (\<lambda>ty.
                    bindE (getUint16 b (off + 2)) (\<lambda>rawAmount.
                      if ty = 43 \<or> ty = 44
                      then Inr \<lparr>gtype = ty,
                                amount = RangeAmount
                                  \<lparr>low = int (rawAmount mod 256),
                                   high = int ((rawAmount div 256) mod 256)\<rparr>\<rparr>
                      else (let signedAmount = (if rawAmount > 32767
                                                then int rawAmount - 65536
                                                else int rawAmount)
                            in Inr \<lparr>gtype = ty, amount = Num signedAmount\<rparr>))))
           [])"

definition defaultZone :: Zone where
  "defaultZone =
     \<lparr>keyRange = \<lparr>low = 0, high = 127\<rparr>, velRange = \<lparr>low = 0, high = 127\<rparr>,
      generators = \<lparr>gen_keyRange = None, gen_velRange = None, sampleID = None,
                    pan = None, fineTune = None, releaseVolEnv = None\<rparr>,
      sampleId = None, instrumentId = None\<rparr>"

text \<open>The \<open>switch\<close> of \<open>buildZone\<close> on one generator.\<close>

definition applyGenerator :: "Zone \<Rightarrow> Generator \<Rightarrow> Zone" where
  "applyGenerator zone gen =
     (if gtype gen = 43 then
        (case amount gen of
           RangeAmount r \<Rightarrow> zone\<lparr>keyRange := r, generators := (generators zone)\<lparr>gen_keyRange := Some r\<rparr>\<rparr>
         | Num _ \<Rightarrow> zone)
      else if gtype gen = 44 then
        (case amount gen of
           RangeAmount r \<Rightarrow> zone\<lparr>velRange := r, generators := (generators zone)\<lparr>gen_velRange := Some r\<rparr>\<rparr>
         | Num _ \<Rightarrow> zone)
      else if gtype gen = 17 then
        (case amount gen of
           Num a \<Rightarrow> zone\<lparr>generators := (generators zone)\<lparr>pan := Some a\<rparr>\<rparr>
         | RangeAmount _ \<Rightarrow> zone)
      else if gtype gen = 52 then
        (case amount gen of
           Num a \<Rightarrow> zone\<lparr>generators := (generators zone)\<lparr>fineTune := Some a\<rparr>\<rparr>
         | RangeAmount _ \<Rightarrow> zone)
      else if gtype gen = 38 then
        (case amount gen of
           Num a \<Rightarrow> zone\<lparr>generators := (generators zone)\<lparr>releaseVolEnv := Some a\<rparr>\<rparr>
         | RangeAmount _ \<Rightarrow> zone)
      else if gtype gen = 53 then
        (case amount gen of
           Num a \<Rightarrow> zone\<lparr>sampleId := Some a, generators := (generators zone)\<lparr>sampleID := Some a\<rparr>\<rparr>
         | RangeAmount _ \<Rightarrow> zone)
      else if gtype gen = 41 then
        (case amount gen of
           Num a \<Rightarrow> zone\<lparr>instrumentId := Some a\<rparr>
         | RangeAmount _ \<Rightarrow> zone)
      else zone)"

definition buildZone :: "Generator list \<Rightarrow> Zone" where
  "buildZone gens = foldl applyGenerator defaultZone gens"

text \<open>
  The body of the loop over the bags of one instrument or preset: \<open>bags[bg]\<close> is
  \<open>undefined\<close> past the end, and reading its \<open>genIndex\<close> then throws.
\<close>

definition zoneOfBag :: "Bag list \<Rightarrow> Generator list \<Rightarrow> nat \<Rightarrow> ParseError + Zone" where
  "zoneOfBag bags gens bg =
     (let nextGenIndex = (if bg + 1 < length bags then genIndex (bags ! (bg + 1))
                          else length gens)
      in if bg < length bags
         then Inr (buildZone (slice_list gens (genIndex (bags ! bg)) nextGenIndex))
         else Inl TypeError)"

subsection \<open>Instruments and presets\<close>

definition readInstrument ::
  "bytes \<Rightarrow> Chunk \<Rightarrow> real \<Rightarrow> Bag list \<Rightarrow> Generator list \<Rightarrow> nat \<Rightarrow> ParseError + Instrument" where
  "readInstrument b instChunk instCount bags gens i =
     (let off = offset instChunk + i * 22
      in bindE (readString b off 20) (\<lambda>nm.
         bindE (getUint16 b (off + 20)) (\<lambda>bagIndex.
         bindE (if real i < instCount - 2
                then getUint16 b (offset instChunk + (i + 1) * 22 + 20)
                else Inr (length bags)) (\<lambda>nextBagIndex.
         bindE (forLoop (real nextBagIndex) bagIndex (zoneOfBag bags gens) []) (\<lambda>zs.
           Inr \<lparr>iname = nm, izones = zs\<rparr>)))))"

definition parseInstruments :: "bytes \<Rightarrow> Chunk \<Rightarrow> Chunk \<Rightarrow> Chunk \<Rightarrow> ParseError + Instrument list" where
  "parseInstruments b instChunk ibagChunk igenChunk =
     (let instCount = real (csize instChunk) / 22
      in bindE (parseBags b ibagChunk) (\<lambda>bags.
         bindE (parseGenerators b igenChunk) (\<lambda>gens.
           forLoop (instCount - 1) 0 (readInstrument b instChunk instCount bags gens) [])))"

text \<open>
  What one preset zone adds to the zones of its preset: a zone with an instrument id
  is replaced by the zones of that instrument (by nothing when there is no such
  instrument), any other zone is kept.
\<close>

definition presetZones :: "Instrument list \<Rightarrow> Zone \<Rightarrow> Zone list" where
  "presetZones insts zone =
     (case instrumentId zone of
        Some iid \<Rightarrow>
          if 0 \<le> iid \<and> iid < int (length insts) then izones (insts ! nat iid) else []
      | None \<Rightarrow> [zone])"

definition readPreset ::
  "bytes \<Rightarrow> Chunk \<Rightarrow> real \<Rightarrow> Bag list \<Rightarrow> Generator list \<Rightarrow> Instrument list \<Rightarrow> nat \<Rightarrow> ParseError + Preset" where
  "readPreset b phdrChunk presetCount bags gens insts i =
     (let off = offset phdrChunk + i * 38
      in bindE (readString b off 20) (\<lambda>nm.
         bindE (getUint16 b (off + 20)) (\<lambda>presetNo.
         bindE (getUint16 b (off + 22)) (\<lambda>bankNo.
         bindE (getUint16 b (off + 24)) (\<lambda>bagIndex.
         bindE (getUint32 b (off + 26)) (\<lambda>lib.
         bindE (getUint32 b (off + 30)) (\<lambda>gnr.
         bindE (getUint32 b (off + 34)) (\<lambda>morph.
         bindE (if real i < presetCount - 2
                then getUint16 b (offset phdrChunk + (i + 1) * 38 + 24)
                else Inr (length bags)) (\<lambda>nextBagIndex.
         bindE (forLoop (real nextBagIndex) bagIndex
                  (\<lambda>bg. bindE (zoneOfBag bags gens bg) (\<lambda>zone. Inr (presetZones insts zone)))
                  []) (\<lambda>zss.
           Inr \<lparr>pname = nm, preset = int presetNo, bank = int bankNo, library = int lib,
                genre = int gnr, morphology = int morph, zones = concat zss\<rparr>))))))))))"

definition parsePresets ::
  "bytes \<Rightarrow> Chunk \<Rightarrow> Chunk \<Rightarrow> Chunk \<Rightarrow> Instrument list \<Rightarrow> ParseError + Preset list" where
  "parsePresets b phdrChunk pbagChunk pgenChunk insts =
     (let presetCount = real (csize phdrChunk) / 38
      in bindE (parseBags b pbagChunk) (\<lambda>bags.
         bindE (parseGenerators b pgenChunk) (\<lambda>gens.
           forLoop (presetCount - 1) 0 (readPreset b phdrChunk presetCount bags gens insts) [])))"

subsection \<open>PDTA\<close>

text \<open>The scan of the sub-chunks of the \<open>pdta\<close> list into the object \<open>chunks\<close>: a
  later sub-chunk of the same id replaces an earlier one.\<close>

definition scanPDTAStep ::
  "bytes \<Rightarrow> nat \<Rightarrow> (string \<times> Chunk) list \<Rightarrow> ParseError + nat \<times> (string \<times> Chunk) list" where
  "scanPDTAStep b currentOffset chunks =
     bindE (readFourCC b currentOffset) (\<lambda>chunkID.
     bindE (getUint32 b (currentOffset + 4)) (\<lambda>chunkSize.
       Inr (currentOffset + 8 + chunkSize,
            AList.update chunkID \<lparr>offset = currentOffset + 8, csize = chunkSize\<rparr> chunks)))"

function scanPDTALoop ::
  "bytes \<Rightarrow> nat \<Rightarrow> nat \<Rightarrow> (string \<times> Chunk) list \<Rightarrow> ParseError + (string \<times> Chunk) list" where
  "scanPDTALoop b endOffset currentOffset chunks =
     (if currentOffset + 8 < endOffset
      then (case scanPDTAStep b currentOffset chunks of
              Inl e \<Rightarrow> Inl e
            | Inr (next, chunks') \<Rightarrow> scanPDTALoop b endOffset next chunks')
      else Inr chunks)"
  by pat_completeness auto
termination
  by (relation "measure (\<lambda>(b, endOffset, currentOffset, chunks). endOffset - currentOffset)")
     (auto simp: scanPDTAStep_def bindE_def split: sum.splits)

definition scanPDTA :: "bytes \<Rightarrow> nat \<Rightarrow> ParseError + (string \<times> Chunk) list" where
  "scanPDTA b off =
     bindE (getUint32 b (off + 4)) (\<lambda>listSize.
       scanPDTALoop b (off + 8 + listSize) (off + 12) [])"

definition requiredChunks :: "string list" where
  "requiredChunks = [''phdr'', ''pbag'', ''pgen'', ''inst'', ''ibag'', ''igen'', ''shdr'']"

fun checkRequired :: "(string \<times> Chunk) list \<Rightarrow> string list \<Rightarrow> ParseError + unit" where
  "checkRequired chunks [] = Inr ()"
| "checkRequired chunks (c # cs) =
     (if map_of chunks c = None then Inl (RequiredChunkMissing c)
      else checkRequired chunks cs)"

text \<open>\<open>chunks.shdr\<close> and the like; on an absent chunk its fields would be read on
  \<open>undefined\<close>.\<close>

definition getChunk :: "(string \<times> Chunk) list \<Rightarrow> string \<Rightarrow> ParseError + Chunk" where
  "getChunk chunks c = (case map_of chunks c of None \<Rightarrow> Inl TypeError | Some ch \<Rightarrow> Inr ch)"

text \<open>The block of 16-bit samples, located and bounds-checked by \<open>parsePDTA\<close>.\<close>

definition sampleBlock :: "bytes \<Rightarrow> ParseError + 16 word list" where
  "sampleBlock b =
     bindE (findChunks b) (\<lambda>chunks.
       let sdtaOffset = SDTA chunks; smplDataOffset = sdtaOffset + 20
       in bindE (getUint32 b (sdtaOffset + 16)) (\<lambda>smplSize.
            let bufferEnd = 0 + smplDataOffset + smplSize
            in if bufferEnd > length b then Inl InvalidSDTASize
               else int16Array b (0 + smplDataOffset) (smplSize div 2)))"

text \<open>Decimal digits of an index, for the name \<open>Sample i\<close>.\<close>

fun showNat :: "nat \<Rightarrow> string" where
  "showNat n = (if n < 10 then [char_of (48 + n)]
                else showNat (n div 10) @ [char_of (48 + n mod 10)])"

definition sampleName :: "RawSampleHeader \<Rightarrow> nat \<Rightarrow> string" where
  "sampleName h i = (if hname h = [] then ''Sample '' @ showNat i else hname h)"

definition invalidIndices :: "16 word list \<Rightarrow> RawSampleHeader \<Rightarrow> bool" where
  "invalidIndices smplData h \<longleftrightarrow>
     start h < 0 \<or> endIdx h < 0 \<or> start h \<ge> int (length smplData)
     \<or> endIdx h > int (length smplData) \<or> start h \<ge> endIdx h"

text \<open>The body of the loop over the sample headers: the sample pushed, and the
  warning written if any.\<close>

definition buildSample :: "16 word list \<Rightarrow> nat \<Rightarrow> RawSampleHeader \<Rightarrow> Sample \<times> Warning list" where
  "buildSample smplData i h =
     (if invalidIndices smplData h
      then (\<lparr>sname = sampleName h i, data = [],
             header = \<lparr>start = 0, endIdx = 0, startLoop = 0, endLoop = 0,
                       sampleRate = (if sampleRate h = 0 then 44100 else sampleRate h),
                       originalPitch = (if originalPitch h = 0 then 60 else originalPitch h),
                       pitchCorrection = 0\<rparr>\<rparr>,
            [InvalidIndices i (hname h) (start h) (endIdx h) (int (length smplData))])
      else (\<lparr>sname = sampleName h i,
             data = slice_list smplData (nat (start h)) (nat (endIdx h)),
             header = \<lparr>start = start h, endIdx = endIdx h, startLoop = startLoop h,
                       endLoop = endLoop h, sampleRate = sampleRate h,
                       originalPitch = originalPitch h,
                       pitchCorrection = pitchCorrection h\<rparr>\<rparr>,
            []))"

definition buildSamples :: "16 word list \<Rightarrow> RawSampleHeader list \<Rightarrow> (Sample \<times> Warning list) list" where
  "buildSamples smplData hs = map (\<lambda>(i, h). buildSample smplData i h) (enumerate 0 hs)"

definition parsePDTA ::
  "bytes \<Rightarrow> nat \<Rightarrow> Sample list
     \<Rightarrow> ParseError + Sample list \<times> Preset list \<times> Instrument list \<times> Warning list" where
  "parsePDTA b off samples0 =
     bindE (scanPDTA b off) (\<lambda>chunks.
     bindE (checkRequired chunks requiredChunks) (\<lambda>_.
     bindE (getChunk chunks ''shdr'') (\<lambda>shdr.
     bindE (parseSampleHeaders b shdr) (\<lambda>sampleHeaders.
     bindE (sampleBlock b) (\<lambda>smplData.
       let built = buildSamples smplData sampleHeaders
       in bindE (getChunk chunks ''inst'') (\<lambda>inst.
          bindE (getChunk chunks ''ibag'') (\<lambda>ibag.
          bindE (getChunk chunks ''igen'') (\<lambda>igen.
          bindE (parseInstruments b inst ibag igen) (\<lambda>insts.
          bindE (getChunk chunks ''phdr'') (\<lambda>phdr.
          bindE (getChunk chunks ''pbag'') (\<lambda>pbag.
          bindE (getChunk chunks ''pgen'') (\<lambda>pgen.
          bindE (parsePresets b phdr pbag pgen insts) (\<lambda>prs.
            Inr (samples0 @ map fst built, prs, insts, concat (map snd built)))))))))))))))"

subsection \<open>parse\<close>

text \<open>\<open>parse\<close>: the bank, and the warnings written on the way. Every exception is
  an \<open>Error\<close> and is thrown again wrapped.\<close>

definition parseStages :: "bytes \<Rightarrow> ParseError + SF2Data \<times> Warning list" where
  "parseStages b =
     bindE (validateRIFF b) (\<lambda>_.
     bindE (findChunks b) (\<lambda>chunks.
     bindE (parseINFO b (INFO chunks)) (\<lambda>infoRec.
     bindE (parseSDTA b (SDTA chunks)) (\<lambda>samples0.
     bindE (parsePDTA b (PDTA chunks) samples0) (\<lambda>res.
       case res of (smps, prs, insts, ws) \<Rightarrow>
         Inr (\<lparr>info = infoRec, samples = smps, presets = prs, instruments = insts\<rparr>, ws))))))"

definition parse :: "bytes \<Rightarrow> ParseError + SF2Data \<times> Warning list" where
  "parse b = (case parseStages b of Inl e \<Rightarrow> Inl (SF2ParseError e) | Inr res \<Rightarrow> Inr res)"

section \<open>Notions used in the proofs\<close>

text \<open>The number of voices in a registry.\<close>

definition regTotal :: "(int \<times> Voice list) list \<Rightarrow> int" where
  "regTotal es = sum_list (map (\<lambda>e. int (length (snd e))) es)"

text \<open>What the scan of \<open>stealOldestVoice\<close> holds after the voices \<open>seen\<close>: no candidate yet, or
  a candidate among them whose priority is the lowest.\<close>

definition scanOk :: "real \<Rightarrow> Voice list \<Rightarrow> Voice option \<times> real option \<Rightarrow> bool" where
  "scanOk now seen acc =
     (case fst acc of
        None \<Rightarrow> snd acc = None \<and> seen = []
      | Some t \<Rightarrow> t \<in> set seen \<and> snd acc = Some (voicePriority now t)
                   \<and> (\<forall>w\<in>set seen. voicePriority now t \<le> voicePriority now w))"

text \<open>Every voice registered under a note is releasing.\<close>

definition noteReleasing :: "SoundEngine \<Rightarrow> int \<Rightarrow> bool" where
  "noteReleasing s n =
     (case map_of (voices s) n of None \<Rightarrow> True | Some vs \<Rightarrow> list_all isReleasing vs)"

text \<open>What the scan of \<open>evictLRU\<close> holds after the entries \<open>seen\<close>.\<close>

definition oldestOk :: "(int \<times> CacheEntry) list \<Rightarrow> int option \<times> int option \<Rightarrow> bool" where
  "oldestOk seen acc =
     (case fst acc of
        None \<Rightarrow> snd acc = None \<and> seen = []
      | Some k \<Rightarrow> (\<exists>e. (k, e) \<in> set seen \<and> snd acc = Some (lastAccessed e)
                        \<and> (\<forall>ide\<in>set seen. lastAccessed e \<le> lastAccessed (snd ide))))"

text \<open>A cache of capacity \<open>c\<close> within its capacity, its keys distinct as in a \<open>Map\<close>.\<close>

definition cacheOk :: "int \<Rightarrow> SampleManager \<Rightarrow> bool" where
  "cacheOk c m \<longleftrightarrow>
     maxCacheSize m = c \<and> int (length (cache m)) \<le> c \<and> distinct (map fst (cache m))"

text \<open>The samples and the warnings of a parse that returned (none when it threw), and
  the loop invariant of the data model on one sample record.\<close>

definition samplesOf :: "ParseError + SF2Data \<times> Warning list \<Rightarrow> Sample list" where
  "samplesOf res = (case res of Inl e \<Rightarrow> [] | Inr r \<Rightarrow> samples (fst r))"

definition warningsOf :: "ParseError + SF2Data \<times> Warning list \<Rightarrow> Warning list" where
  "warningsOf res = (case res of Inl e \<Rightarrow> [] | Inr r \<Rightarrow> snd r)"

definition loopInvariant :: "Sample \<Rightarrow> bool" where
  "loopInvariant s \<longleftrightarrow>
     startLoop (header s) < endLoop (header s) \<and> endLoop (header s) \<le> int (length (data s))"

section \<open>Concrete data used by the closed theorems\<close>

definition sampleA :: Sample where
  "sampleA = \<lparr>sname = ''A4'', data = [],
     header = \<lparr>start = 0, endIdx = 0, startLoop = 0, endLoop = 0,
               sampleRate = 48000, originalPitch = 69, pitchCorrection = 0\<rparr>\<rparr>"

definition zoneA :: Zone where
  "zoneA = \<lparr>keyRange = \<lparr>low = 0, high = 127\<rparr>, velRange = \<lparr>low = 0, high = 127\<rparr>,
     generators = \<lparr>gen_keyRange = None, gen_velRange = None, sampleID = Some 0,
                   pan = Some (-500), fineTune = None, releaseVolEnv = None\<rparr>,
     sampleId = Some 0, instrumentId = None\<rparr>"

text \<open>A bank with one preset whose two zones, left and right, cover every key and
  velocity, and an audio environment whose gain nodes all read 1.\<close>

definition zoneR :: Zone where
  "zoneR = \<lparr>keyRange = \<lparr>low = 0, high = 127\<rparr>, velRange = \<lparr>low = 0, high = 127\<rparr>,
     generators = \<lparr>gen_keyRange = None, gen_velRange = None, sampleID = Some 1,
                   pan = Some 500, fineTune = None, releaseVolEnv = None\<rparr>,
     sampleId = Some 1, instrumentId = None\<rparr>"

definition presetA :: Preset where
  "presetA = \<lparr>pname = ''Piano'', preset = 0, bank = 0, library = 0, genre = 0,
               morphology = 0, zones = [zoneA, zoneR]\<rparr>"

definition bankA :: SF2Data where
  "bankA = \<lparr>info = \<lparr>version = (2, 1), soundEngine = ''EMU8000'', bankName = ''Piano'',
                     romName = None, romVersion = None, creationDate = None,
                     engineers = None, product = None, copyright = None,
                     comments = None, software = None\<rparr>,
            samples = [sampleA, sampleA],
            presets = [presetA],
            instruments = []\<rparr>"

definition envAt :: "real \<Rightarrow> AudioEnv" where
  "envAt t = \<lparr>currentTime = t, gainValue = (\<lambda>r. 1)\<rparr>"

text \<open>Five notes of rising velocity, one per second, on an engine of four voices.\<close>

definition fiveNotes :: "Event list" where
  "fiveNotes =
     [NoteOn (envAt 0) 0 60 10, NoteOn (envAt 1) 1 62 20, NoteOn (envAt 2) 2 64 30,
      NoteOn (envAt 3) 3 65 40, NoteOn (envAt 4) 4 67 50]"

text \<open>The same five notes with the calls started one after the other before any of
  them goes on: every call runs its first part, then every call its second part, then
  every call its third.\<close>

definition fiveOverlapping :: "Turn list" where
  "fiveOverlapping =
     [Begin (envAt 0) 60 10, Begin (envAt 0) 62 20, Begin (envAt 0) 64 30,
      Begin (envAt 0) 65 40, Begin (envAt 0) 67 50,
      Continue 0 0, Continue 1 0, Continue 2 0, Continue 3 0, Continue 4 0,
      Continue 0 0, Continue 1 0, Continue 2 0, Continue 3 0, Continue 4 0]"

text \<open>A note struck with the pedal down; the same after its note-off; and a note
  struck with the pedal up.\<close>

definition struckPedalDown :: SoundEngine where
  "struckPedalDown =
     runEvents (newSoundEngine 48000 bankA None)
       [SetSustainPedal (envAt 0) True, NoteOn (envAt 1) 1 64 100]"

definition pedalHeld :: SoundEngine where
  "pedalHeld = noteOff (envAt 2) struckPedalDown 64"

definition struckPedalUp :: SoundEngine where
  "struckPedalUp = runEvents (newSoundEngine 48000 bankA None) [NoteOn (envAt 1) 1 64 100]"

text \<open>Four loads through a cache of two entries: samples 0 and 1, sample 0 again,
  then sample 2.\<close>

definition bankB :: SF2Data where
  "bankB = bankA\<lparr>samples := [sampleA, sampleA, sampleA]\<rparr>"

definition fourLoads :: "(int \<times> int) list" where
  "fourLoads = [(10, 0), (20, 1), (30, 0), (40, 2)]"

subsection \<open>A small bank file\<close>

text \<open>Little-endian numbers, ASCII text, a name of 20 bytes ending in zero bytes, a chunk with the
  size written in its header, and a list chunk, as they lie in a file.\<close>

definition le16 :: "nat \<Rightarrow> bytes" where
  "le16 n = [word_of_nat (n mod 256), word_of_nat (n div 256 mod 256)]"

definition le16s :: "int \<Rightarrow> bytes" where
  "le16s a = le16 (nat (a mod 65536))"

definition le32 :: "nat \<Rightarrow> bytes" where
  "le32 n = le16 (n mod 65536) @ le16 (n div 65536)"

definition ascii :: "string \<Rightarrow> bytes" where
  "ascii s = map of_char s"

definition name20 :: "string \<Rightarrow> bytes" where
  "name20 s = take 20 (ascii s @ [0, 0, 0, 0, 0, 0, 0, 0, 0, 0, 0, 0, 0, 0, 0, 0, 0, 0, 0, 0])"

definition chunkBytes :: "string \<Rightarrow> nat \<Rightarrow> bytes \<Rightarrow> bytes" where
  "chunkBytes cid sz body = ascii cid @ le32 sz @ body"

definition listBytes :: "string \<Rightarrow> nat \<Rightarrow> bytes \<Rightarrow> bytes" where
  "listBytes ty sz body = chunkBytes ''LIST'' sz (ascii ty @ body)"

text \<open>One \<open>shdr\<close> record: name (20 bytes), start, end, loop start, loop end, rate,
  original pitch, pitch correction, link, type.\<close>

definition shdrBytes ::
  "bytes \<Rightarrow> nat \<Rightarrow> nat \<Rightarrow> nat \<Rightarrow> nat \<Rightarrow> nat \<Rightarrow> nat \<Rightarrow> nat \<Rightarrow> nat \<Rightarrow> nat \<Rightarrow> bytes" where
  "shdrBytes nm st en sl el rate pitch corr link ty =
     nm @ le32 st @ le32 en @ le32 sl @ le32 el @ le32 rate
       @ [word_of_nat pitch, word_of_nat corr] @ le16 link @ le16 ty"

definition genBytes :: "nat \<Rightarrow> int \<Rightarrow> bytes" where
  "genBytes ty a = le16 ty @ le16s a"

definition bagBytes :: "nat \<Rightarrow> nat \<Rightarrow> bytes" where
  "bagBytes g m = le16 g @ le16 m"

definition phdrBytes :: "bytes \<Rightarrow> nat \<Rightarrow> bytes" where
  "phdrBytes nm bagIdx = nm @ le16 0 @ le16 0 @ le16 bagIdx @ le32 0 @ le32 0 @ le32 0"

definition instBytes :: "bytes \<Rightarrow> nat \<Rightarrow> bytes" where
  "instBytes nm bagIdx = nm @ le16 bagIdx"

text \<open>
  The lists of a bank with four 16-bit samples in its sample block, one preset that
  refers to one instrument of two zones (left, sample 0, and right, sample 1), and three
  sample headers before the terminator: samples 0..2 and 2..4 of the block, each looping
  over its whole extent, and a header that claims samples 4..9 of a block of four.
\<close>

definition infoList :: bytes where
  "infoList = listBytes ''INFO'' 28
     (chunkBytes ''ifil'' 4 (le16 2 @ le16 1) @ chunkBytes ''INAM'' 4 (ascii ''Pno'' @ [0]))"

definition sdtaList :: bytes where
  "sdtaList = listBytes ''sdta'' 20
     (chunkBytes ''smpl'' 8 (le16s 100 @ le16s (- 200) @ le16s 300 @ le16s (- 400)))"

definition presetChunks :: bytes where
  "presetChunks =
     chunkBytes ''phdr'' 76 (phdrBytes (name20 ''Piano'') 0 @ phdrBytes (name20 ''EOP'') 1)
     @ chunkBytes ''pbag'' 8 (bagBytes 0 0 @ bagBytes 1 0)
     @ chunkBytes ''pgen'' 8 (genBytes 41 0 @ genBytes 0 0)
     @ chunkBytes ''inst'' 44 (instBytes (name20 ''Grand'') 0 @ instBytes (name20 ''EOI'') 2)
     @ chunkBytes ''ibag'' 12 (bagBytes 0 0 @ bagBytes 2 0 @ bagBytes 4 0)
     @ chunkBytes ''igen'' 20 (genBytes 17 (- 500) @ genBytes 53 0 @ genBytes 17 500
                               @ genBytes 53 1 @ genBytes 0 0)"

definition shdrChunk :: bytes where
  "shdrChunk = chunkBytes ''shdr'' 184
     (shdrBytes (name20 ''L'') 0 2 0 2 48000 60 0 1 4
      @ shdrBytes (name20 ''R'') 2 4 2 4 48000 60 0 0 2
      @ shdrBytes (name20 []) 4 9 4 9 0 0 5 0 1
      @ shdrBytes (name20 ''EOS'') 0 0 0 0 0 0 0 0 0)"

definition smallBank :: bytes where
  "smallBank = chunkBytes ''RIFF'' 488
     (ascii ''sfbk'' @ infoList @ sdtaList @ listBytes ''pdta'' 412 (presetChunks @ shdrChunk))"

text \<open>The same file under another container signature, and the same file without
  its sample-header chunk (the instrument generators come last).\<close>

definition wrongSignature :: bytes where
  "wrongSignature = chunkBytes ''RIFX'' 488
     (ascii ''sfbk'' @ infoList @ sdtaList @ listBytes ''pdta'' 412 (presetChunks @ shdrChunk))"

definition noSampleHeaders :: bytes where
  "noSampleHeaders = chunkBytes ''RIFF'' 296
     (ascii ''sfbk'' @ infoList @ sdtaList @ listBytes ''pdta'' 220 presetChunks)"

text \<open>The generators of the left zone of the small bank: pan and sample id, no ranges.\<close>

definition leftGens :: "Generator list" where
  "leftGens = [\<lparr>gtype = 17, amount = Num (- 500)\<rparr>, \<lparr>gtype = 53, amount = Num 0\<rparr>]"

section \<open>Playback rate\<close>

lemma adjustForSampleRate_ratio:
  "contextRate \<noteq> 0 \<Longrightarrow>
     adjustForSampleRate r sRate contextRate = r * (sRate / contextRate)"
  by (simp add: adjustForSampleRate_def Let_def)

text \<open>
  Claim C1. For an output device rate that is not zero (an \<open>AudioContext\<close> has a
  positive rate), the playback rate is
  \<open>2^(((note - originalPitch) * 100 + pitchCorrection + fineTune) / 1200)\<close> times
  \<open>sampleRate / contextRate\<close>, the source rate over the output rate, an absent fine tune
  counting as 0; and for the note at the original pitch, no pitch correction, no fine
  tune and equal rates the result is exactly 1.
\<close>

theorem calculatePlaybackRate_formula:
  "(contextRate \<noteq> 0 \<longrightarrow>
      calculatePlaybackRate contextRate note sample zone =
        2 powr (real_of_int ((note - originalPitch (header sample)) * 100
                    + pitchCorrection (header sample)
                    + (case fineTune (generators zone) of None \<Rightarrow> 0 | Some ft \<Rightarrow> ft)) / 1200)
          * (real_of_int (sampleRate (header sample)) / contextRate))
   \<and> (note = originalPitch (header sample) \<and> pitchCorrection (header sample) = 0
        \<and> (fineTune (generators zone) = None \<or> fineTune (generators zone) = Some 0)
        \<and> real_of_int (sampleRate (header sample)) = contextRate \<longrightarrow>
      calculatePlaybackRate contextRate note sample zone = 1)"
proof (intro conjI impI)
  assume "contextRate \<noteq> 0"
  then show "calculatePlaybackRate contextRate note sample zone =
        2 powr (real_of_int ((note - originalPitch (header sample)) * 100
                    + pitchCorrection (header sample)
                    + (case fineTune (generators zone) of None \<Rightarrow> 0 | Some ft \<Rightarrow> ft)) / 1200)
          * (real_of_int (sampleRate (header sample)) / contextRate)"
    unfolding calculatePlaybackRate_def Let_def
    by (rule adjustForSampleRate_ratio)
next
  assume h: "note = originalPitch (header sample) \<and> pitchCorrection (header sample) = 0
        \<and> (fineTune (generators zone) = None \<or> fineTune (generators zone) = Some 0)
        \<and> real_of_int (sampleRate (header sample)) = contextRate"
  then show "calculatePlaybackRate contextRate note sample zone = 1"
    by (auto simp: calculatePlaybackRate_def adjustForSampleRate_def Let_def)
qed

theorem calculatePlaybackRate_formula_witness:
  "calculatePlaybackRate 44100 69 sampleA zoneA = 48000 / 44100
   \<and> calculatePlaybackRate 48000 69 sampleA zoneA = 1
   \<and> calculatePlaybackRate 44100 81 sampleA zoneA = 2 * (48000 / 44100)"
  using calculatePlaybackRate_formula [of 44100 69 sampleA zoneA]
    calculatePlaybackRate_formula [of 48000 69 sampleA zoneA]
    calculatePlaybackRate_formula [of 44100 81 sampleA zoneA]
  by (simp add: sampleA_def zoneA_def)

section \<open>Release time\<close>

lemma two_powr_tiny: "(2::real) powr (- 100000 / 1200) < 0.01"
proof -
  have "(2::real) powr (- 100000 / 1200) \<le> 2 powr (- 7)"
    by (rule powr_mono) simp_all
  also have "\<dots> = 1 / 2 ^ 7"
    by (simp add: powr_minus_divide)
  also have "\<dots> < 0.01"
    by simp
  finally show ?thesis .
qed

text \<open>
  Claim C5. The release time is \<open>2^(timecents/1200)\<close> seconds clamped to
  \<open>[0.01, 10]\<close>, and 0.2 seconds for an unset input; at 0 it is 1, at 1200 it is 2,
  at -100000 it is 0.01.
\<close>

theorem calculateReleaseTime_clamped:
  "calculateReleaseTime (Some tc) = max 0.01 (min 10 (2 powr (tc / 1200)))
   \<and> calculateReleaseTime None = 0.2
   \<and> calculateReleaseTime (Some 0) = 1
   \<and> calculateReleaseTime (Some 1200) = 2
   \<and> calculateReleaseTime (Some (- 100000)) = 0.01"
proof (intro conjI)
  show "calculateReleaseTime (Some tc) = max 0.01 (min 10 (2 powr (tc / 1200)))"
    by (simp add: calculateReleaseTime_def timecentsToSeconds_def Let_def max_def min_def)
  show "calculateReleaseTime None = 0.2"
    by (simp add: calculateReleaseTime_def)
  show "calculateReleaseTime (Some 0) = 1"
    by (simp add: calculateReleaseTime_def timecentsToSeconds_def)
  show "calculateReleaseTime (Some 1200) = 2"
    by (simp add: calculateReleaseTime_def timecentsToSeconds_def)
  show "calculateReleaseTime (Some (- 100000)) = 0.01"
    using two_powr_tiny by (simp add: calculateReleaseTime_def timecentsToSeconds_def)
qed

section \<open>Polyphony and voice stealing\<close>

lemma spliceVoice_length:
  "r \<in> vref ` set vs \<Longrightarrow> int (length (spliceVoice r vs)) = int (length vs) - 1"
  by (induction vs) auto

lemma totalVoices_regTotal: "totalVoices s = regTotal (voices s)"
  by (simp add: totalVoices_def regTotal_def)

lemma removeFromRegistry_total:
  "regTotal (fst (removeFromRegistry r es)) =
     regTotal es - (if \<exists>e\<in>set es. r \<in> vref ` set (snd e) then 1 else 0)"
proof (induction es)
  case Nil
  then show ?case by (simp add: regTotal_def)
next
  case (Cons e es)
  show ?case
  proof (cases "r \<in> vref ` set (snd e)")
    case True
    then show ?thesis
      using spliceVoice_length[OF True]
      by (auto simp: regTotal_def Let_def)
  next
    case False
    then show ?thesis
      using Cons.IH by (auto simp: regTotal_def Let_def)
  qed
qed

lemma removeVoice_total:
  "totalVoices (removeVoice v s) =
     totalVoices s - (if vref v \<in> vref ` set (allVoices s) then 1 else 0)"
  by (auto simp: removeVoice_def Let_def totalVoices_regTotal removeFromRegistry_total allVoices_def)

lemma removeVoice_maxPolyphony [simp]: "maxPolyphony (removeVoice v s) = maxPolyphony s"
  by (simp add: removeVoice_def Let_def)

lemma stealStep_scanOk:
  "scanOk now seen acc \<Longrightarrow> scanOk now (seen @ [v]) (stealStep now acc v)"
  by (cases acc) (auto simp: scanOk_def stealStep_def Let_def split: option.splits)

lemma foldl_stealStep_scanOk:
  "scanOk now seen acc \<Longrightarrow> scanOk now (seen @ vs) (foldl (stealStep now) acc vs)"
proof (induction vs arbitrary: seen acc)
  case Nil
  then show ?case by simp
next
  case (Cons v vs)
  from Cons.IH[OF stealStep_scanOk[OF Cons.prems, of v]]
  show ?case by simp
qed

lemma stealTarget_scanOk:
  "scanOk now (allVoices s) (foldl (stealStep now) (None, None) (allVoices s))"
  using foldl_stealStep_scanOk[of now "[]" "(None, None)" "allVoices s"]
  by (simp add: scanOk_def)

lemma stealTarget_None: "stealTarget now s = None \<longleftrightarrow> allVoices s = []"
  using stealTarget_scanOk[of now s]
  by (auto simp: stealTarget_def scanOk_def split: option.splits)

lemma stealTarget_Some:
  "stealTarget now s = Some t \<Longrightarrow>
     t \<in> set (allVoices s) \<and> (\<forall>w\<in>set (allVoices s). voicePriority now t \<le> voicePriority now w)"
  using stealTarget_scanOk[of now s]
  by (auto simp: stealTarget_def scanOk_def split: option.splits)

lemma totalVoices_audioLog [simp]: "totalVoices (s\<lparr>audioLog := l\<rparr>) = totalVoices s"
  by (simp add: totalVoices_def)

lemma allVoices_audioLog [simp]: "allVoices (s\<lparr>audioLog := l\<rparr>) = allVoices s"
  by (simp add: allVoices_def)

lemma regTotal_nonneg: "0 \<le> regTotal es"
  by (induction es) (auto simp: regTotal_def)

lemma stealOldestVoice_total:
  "totalVoices (stealOldestVoice env s) = totalVoices s - (if allVoices s = [] then 0 else 1)"
proof (cases "stealTarget (currentTime env) s")
  case None
  then show ?thesis
    using stealTarget_None[of "currentTime env" s] by (simp add: stealOldestVoice_def)
next
  case (Some t)
  then have "t \<in> set (allVoices s)" using stealTarget_Some by blast
  moreover have "allVoices s \<noteq> []" using calculation by auto
  ultimately show ?thesis using Some
    by (simp add: stealOldestVoice_def removeVoice_total)
qed

lemma totalVoices_pos_iff: "allVoices s = [] \<longleftrightarrow> totalVoices s = 0"
proof -
  have "concat (map snd es) = [] \<longleftrightarrow> regTotal es = 0" for es :: "(int \<times> Voice list) list"
  proof (induction es)
    case Nil
    then show ?case by (simp add: regTotal_def)
  next
    case (Cons e es)
    have "0 \<le> regTotal es" by (rule regTotal_nonneg)
    then show ?case using Cons by (auto simp: regTotal_def)
  qed
  then show ?thesis by (simp add: allVoices_def totalVoices_regTotal)
qed


lemma checkPolyphonyLimit_total:
  "totalVoices (checkPolyphonyLimit env s) =
     (if totalVoices s \<ge> maxPolyphony s \<and> totalVoices s \<noteq> 0 then totalVoices s - 1
      else totalVoices s)"
  by (simp add: checkPolyphonyLimit_def stealOldestVoice_total totalVoices_pos_iff)

lemma regTotal_update:
  "map_of es k = Some vs \<Longrightarrow>
     regTotal (AList.update k vs' es) = regTotal es - int (length vs) + int (length vs')"
  by (induction es) (auto simp: regTotal_def)

lemma regTotal_append [simp]: "regTotal (es @ fs) = regTotal es + regTotal fs"
  by (simp add: regTotal_def)

lemma registerVoice_total: "totalVoices (registerVoice s note voice) = totalVoices s + 1"
  by (auto simp: registerVoice_def totalVoices_regTotal regTotal_update split: option.splits)
     (simp add: regTotal_def)

lemma releaseNote_total [simp]: "totalVoices (releaseNote env s note) = totalVoices s"
  by (auto simp: releaseNote_def totalVoices_regTotal regTotal_update Let_def split: option.splits)

lemma foldl_releaseNote_total [simp]:
  "totalVoices (foldl (releaseNote env) s ns) = totalVoices s"
  by (induction ns arbitrary: s) auto

lemma fadeExisting_total [simp]: "totalVoices (fadeExisting env s note) = totalVoices s"
  by (simp add: fadeExisting_def split: option.splits)


subsection \<open>maxPolyphony is never written\<close>

lemma releaseNote_maxPolyphony [simp]: "maxPolyphony (releaseNote env s note) = maxPolyphony s"
  by (simp add: releaseNote_def Let_def split: option.splits)

lemma foldl_releaseNote_maxPolyphony [simp]:
  "maxPolyphony (foldl (releaseNote env) s ns) = maxPolyphony s"
  by (induction ns arbitrary: s) auto

lemma stealOldestVoice_maxPolyphony [simp]: "maxPolyphony (stealOldestVoice env s) = maxPolyphony s"
  by (simp add: stealOldestVoice_def split: option.splits)

lemma checkPolyphonyLimit_maxPolyphony [simp]:
  "maxPolyphony (checkPolyphonyLimit env s) = maxPolyphony s"
  by (simp add: checkPolyphonyLimit_def)

lemma fadeExisting_maxPolyphony [simp]: "maxPolyphony (fadeExisting env s note) = maxPolyphony s"
  by (simp add: fadeExisting_def split: option.splits)

lemma noteOnBegin_maxPolyphony [simp]:
  "maxPolyphony (fst (noteOnBegin env s note vel)) = maxPolyphony s"
  by (simp add: noteOnBegin_def Let_def)

lemma continueCall_maxPolyphony [simp]:
  "maxPolyphony (fst (continueCall t s c)) = maxPolyphony s"
  by (simp add: continueCall_def startVoice_def noteOnResume_def registerVoice_def Let_def
      split: NoteOnCall.splits sum.splits)

lemma noteOn_maxPolyphony [simp]: "maxPolyphony (noteOn env startT s note vel) = maxPolyphony s"
  by (simp add: noteOn_def Let_def)

lemma applyEvent_maxPolyphony [simp]: "maxPolyphony (applyEvent s ev) = maxPolyphony s"
  by (cases ev) (simp_all add: noteOff_def setSustainPedal_def allNotesOff_def panic_def Let_def
      split: option.splits)

subsection \<open>The bound is kept by every call\<close>

text \<open>The awaited call, written out: the voice is registered on the engine that the
  polyphony check left.\<close>

lemma noteOn_unfold:
  "noteOn env startT s note vel =
     (if note < 21 \<or> note > 108 then s
      else if vel < 0 \<or> vel > 127 then s
      else (let zs = selectZones (sf2Data s) note vel
            in if zs = [] then s
               else (let s1 = fadeExisting env s note;
                         s2 = checkPolyphonyLimit env s1
                     in case playStereoPair s2 (nextRef s2) startT note vel zs of
                          Inl err \<Rightarrow> s2
                        | Inr voice \<Rightarrow>
                            registerVoice
                              (s2\<lparr>nextRef := Suc (nextRef s2),
                                  audioLog := audioLog s2 @ [(vref voice, Start (startTime voice))]\<rparr>)
                              note voice)))"
  by (simp add: noteOn_def noteOnBegin_def continueCall_def startVoice_def noteOnResume_def
      Let_def split: sum.splits)

lemma totalVoices_nextRef [simp]: "totalVoices (s\<lparr>nextRef := r\<rparr>) = totalVoices s"
  by (simp add: totalVoices_def)

lemma noteOn_bound:
  assumes "1 \<le> maxPolyphony s" and "totalVoices s \<le> maxPolyphony s"
  shows "totalVoices (noteOn env startT s note vel) \<le> maxPolyphony s"
proof -
  let ?s1 = "fadeExisting env s note"
  let ?s2 = "checkPolyphonyLimit env ?s1"
  have below: "totalVoices ?s2 < maxPolyphony s"
    using assms by (simp add: checkPolyphonyLimit_total)
  have "totalVoices (registerVoice (?s2\<lparr>nextRef := r, audioLog := l\<rparr>) note voice)
          \<le> maxPolyphony s" for voice r l
    using below by (simp add: registerVoice_total)
  moreover have "totalVoices ?s2 \<le> maxPolyphony s"
    using below by simp
  ultimately show ?thesis
    using assms(2) by (simp add: noteOn_unfold Let_def split: sum.splits)
qed

lemma panic_total [simp]: "totalVoices (panic s) = 0"
  by (simp add: panic_def totalVoices_def)

lemma totalVoices_sustainedNotes [simp]: "totalVoices (s\<lparr>sustainedNotes := ns\<rparr>) = totalVoices s"
  by (simp add: totalVoices_def)

lemma totalVoices_sustainPedal [simp]: "totalVoices (s\<lparr>sustainPedal := b\<rparr>) = totalVoices s"
  by (simp add: totalVoices_def)

lemma noteOff_total [simp]: "totalVoices (noteOff env s n) = totalVoices s"
  by (simp add: noteOff_def split: option.splits)

lemma setSustainPedal_total [simp]: "totalVoices (setSustainPedal env s isDown) = totalVoices s"
  by (simp add: setSustainPedal_def Let_def)

lemma allNotesOff_total [simp]: "totalVoices (allNotesOff env s) = totalVoices s"
  by (simp add: allNotesOff_def)

lemma applyEvent_bound:
  assumes "1 \<le> maxPolyphony s" and "totalVoices s \<le> maxPolyphony s"
  shows "totalVoices (applyEvent s ev) \<le> maxPolyphony s"
proof (cases ev)
  case (NoteOn env startT nt vel)
  then show ?thesis using noteOn_bound[OF assms] by simp
next
  case (VoiceEnded voice)
  then show ?thesis using assms(2) by (simp add: removeVoice_total)
next
  case Panic
  then show ?thesis using assms(1) by simp
qed (use assms(2) in simp_all)

lemma runEvents_bound:
  assumes "1 \<le> maxPolyphony s" and "totalVoices s \<le> maxPolyphony s"
  shows "totalVoices (runEvents s evs) \<le> maxPolyphony s
         \<and> maxPolyphony (runEvents s evs) = maxPolyphony s"
  using assms unfolding runEvents_def
proof (induction evs arbitrary: s)
  case Nil
  then show ?case by simp
next
  case (Cons ev evs)
  have "1 \<le> maxPolyphony (applyEvent s ev)"
    using Cons.prems(1) by simp
  moreover have "totalVoices (applyEvent s ev) \<le> maxPolyphony (applyEvent s ev)"
    using applyEvent_bound[OF Cons.prems] by simp
  ultimately show ?case
    using Cons.IH[of "applyEvent s ev"] by simp
qed


lemma newSoundEngine_total [simp]: "totalVoices (newSoundEngine rate sf2 cfg) = 0"
  by (simp add: newSoundEngine_def totalVoices_def)

text \<open>
  Calls that do not overlap. On an engine built with no configured maximum (then 64) or
  a configured maximum that is not negative (0 counts as unset), after any sequence of
  calls, each run to its end before the next one starts, the registry holds at most
  \<open>maxPolyphony\<close> voices; \<open>checkPolyphonyLimit\<close> removes exactly one voice when the count
  has reached the maximum and none otherwise.
\<close>

lemma awaited_calls_bound:
  assumes "cfg = None \<or> (\<exists>m. cfg = Some m \<and> 0 \<le> m)"
  shows "totalVoices (runEvents (newSoundEngine rate sf2 cfg) evs)
           \<le> maxPolyphony (newSoundEngine rate sf2 cfg)
         \<and> maxPolyphony (runEvents (newSoundEngine rate sf2 cfg) evs)
             = maxPolyphony (newSoundEngine rate sf2 cfg)
         \<and> maxPolyphony (newSoundEngine rate sf2 None) = 64
         \<and> totalVoices (checkPolyphonyLimit env (runEvents (newSoundEngine rate sf2 cfg) evs))
             = (if maxPolyphony (newSoundEngine rate sf2 cfg)
                     \<le> totalVoices (runEvents (newSoundEngine rate sf2 cfg) evs)
                then totalVoices (runEvents (newSoundEngine rate sf2 cfg) evs) - 1
                else totalVoices (runEvents (newSoundEngine rate sf2 cfg) evs))"
proof -
  let ?s0 = "newSoundEngine rate sf2 cfg"
  have pos: "1 \<le> maxPolyphony ?s0"
    using assms by (auto simp: newSoundEngine_def)
  have run: "totalVoices (runEvents ?s0 evs) \<le> maxPolyphony ?s0
             \<and> maxPolyphony (runEvents ?s0 evs) = maxPolyphony ?s0"
    using pos by (intro runEvents_bound) simp_all
  have "maxPolyphony (newSoundEngine rate sf2 None) = 64"
    by (simp add: newSoundEngine_def)
  moreover have "totalVoices (checkPolyphonyLimit env (runEvents ?s0 evs))
      = (if maxPolyphony ?s0 \<le> totalVoices (runEvents ?s0 evs)
         then totalVoices (runEvents ?s0 evs) - 1 else totalVoices (runEvents ?s0 evs))"
    using pos run by (simp add: checkPolyphonyLimit_total)
  ultimately show ?thesis using run by simp
qed

text \<open>An awaited call is a call that begins and goes on twice with nothing in between.\<close>

lemma noteOn_as_turns:
  "engine (runTurns \<lparr>engine = s, calls = cs\<rparr>
             [Begin env note vel, Continue (length cs) t, Continue (length cs) t])
     = noteOn env t s note vel"
  by (simp add: runTurns_def noteOn_def Let_def)

text \<open>Each part on its own: the first part leaves fewer voices than the maximum, the
  second leaves the registry as it is, the third adds the voice without a new check.\<close>

lemma noteOnBegin_below:
  assumes "1 \<le> maxPolyphony s" and "totalVoices s \<le> maxPolyphony s"
    and "snd (noteOnBegin env s note vel) \<noteq> Returned"
  shows "totalVoices (fst (noteOnBegin env s note vel)) < maxPolyphony s"
  using assms by (simp add: noteOnBegin_def Let_def checkPolyphonyLimit_total split: if_splits)

lemma continueCall_total:
  "totalVoices (fst (continueCall t s c))
     = (case c of AwaitsVoice note (Inr voice) \<Rightarrow> totalVoices s + 1 | _ \<Rightarrow> totalVoices s)"
  by (simp add: continueCall_def startVoice_def noteOnResume_def registerVoice_total Let_def
      split: NoteOnCall.splits sum.splits)

text \<open>
  Claim C3. The polyphony check runs in the first part of \<open>noteOn\<close> and the voice is
  registered in the third, after the function has awaited \<open>playStereoPair\<close>. Five calls
  on an engine of four voices, started together, each find an empty registry at their
  check and steal nothing, and when all have returned the registry holds five voices,
  more than the maximum. The same five calls each awaited leave four.
\<close>

theorem overlapping_noteOn_exceeds_maxPolyphony:
  "maxPolyphony (engine (runTurns (startRuntime (newSoundEngine 48000 bankA (Some 4)))
                           fiveOverlapping)) = 4
   \<and> totalVoices (engine (runTurns (startRuntime (newSoundEngine 48000 bankA (Some 4)))
                             (take 5 fiveOverlapping))) = 0
   \<and> totalVoices (engine (runTurns (startRuntime (newSoundEngine 48000 bankA (Some 4)))
                             fiveOverlapping)) = 5
   \<and> calls (runTurns (startRuntime (newSoundEngine 48000 bankA (Some 4))) fiveOverlapping)
        = [Returned, Returned, Returned, Returned, Returned]
   \<and> map (\<lambda>e. map velocity (snd e))
        (voices (engine (runTurns (startRuntime (newSoundEngine 48000 bankA (Some 4)))
                           fiveOverlapping)))
        = [[10], [20], [30], [40], [50]]
   \<and> totalVoices (runEvents (newSoundEngine 48000 bankA (Some 4)) fiveNotes) = 4"
  by code_simp

text \<open>
  Claim C2. The voice stolen is one of lowest score (\<open>stealTarget_Some\<close>), and a
  releasing voice loses 1000 points; but the score subtracts the velocity and adds ten
  points per second of age, so among four voices of velocities 10, 20, 30, 40 started one
  second apart the fifth note-on steals the voice of velocity 40, the loudest and the
  youngest, where the claim has the voice of velocity 10, the softest and the oldest.
\<close>

theorem steal_prefers_loud_and_young:
  "map (\<lambda>e. map velocity (snd e))
     (voices (runEvents (newSoundEngine 48000 bankA (Some 4)) (take 4 fiveNotes)))
     = [[10], [20], [30], [40]]
   \<and> map (\<lambda>e. map velocity (snd e))
     (voices (runEvents (newSoundEngine 48000 bankA (Some 4)) fiveNotes))
     = [[10], [20], [30], [50]]"
  by code_simp

section \<open>Release and sustain pedal\<close>

lemma releaseVoice_isReleasing [simp]: "isReleasing (fst (releaseVoice env v))"
  by (simp add: releaseVoice_def Let_def)


lemma releaseVoice_keeps: "isReleasing v \<Longrightarrow> isReleasing (fst (releaseVoice env v))"
  by simp

lemma map_of_releaseNote:
  "map_of (voices (releaseNote env s n)) m =
     (if m = n then map_option (map (fst \<circ> releaseVoice env)) (map_of (voices s) n)
      else map_of (voices s) m)"
  by (auto simp: releaseNote_def Let_def update_conv' split: option.splits)

lemma noteReleasing_releaseNote_same: "noteReleasing (releaseNote env s n) n"
  by (auto simp: noteReleasing_def map_of_releaseNote list_all_iff split: option.splits)

lemma noteReleasing_releaseNote_other:
  "noteReleasing s n \<Longrightarrow> noteReleasing (releaseNote env s m) n"
  by (auto simp: noteReleasing_def map_of_releaseNote list_all_iff split: option.splits)

lemma noteReleasing_foldl_keep:
  "noteReleasing s n \<Longrightarrow> noteReleasing (foldl (releaseNote env) s ns) n"
  by (induction ns arbitrary: s) (auto intro: noteReleasing_releaseNote_other)

lemma noteReleasing_foldl:
  "n \<in> set ns \<Longrightarrow> noteReleasing (foldl (releaseNote env) s ns) n"
proof (induction ns arbitrary: s)
  case Nil
  then show ?case by simp
next
  case (Cons m ns)
  show ?case
  proof (cases "n = m")
    case True
    then show ?thesis
      using noteReleasing_foldl_keep[OF noteReleasing_releaseNote_same] by simp
  next
    case False
    then show ?thesis using Cons by simp
  qed
qed

lemma noteReleasing_sustainedNotes [simp]:
  "noteReleasing (s\<lparr>sustainedNotes := ns\<rparr>) n = noteReleasing s n"
  by (simp add: noteReleasing_def)




lemma releaseNote_sustainedNotes [simp]:
  "sustainedNotes (releaseNote env s n) = sustainedNotes s"
  by (simp add: releaseNote_def Let_def split: option.splits)

lemma releaseNote_sustainPedal [simp]:
  "sustainPedal (releaseNote env s n) = sustainPedal s"
  by (simp add: releaseNote_def Let_def split: option.splits)

lemma foldl_releaseNote_sustainPedal [simp]:
  "sustainPedal (foldl (releaseNote env) s ns) = sustainPedal s"
  by (induction ns arbitrary: s) auto

text \<open>
  Claim C8, as amended. For a note with live voices: a note-off with the pedal down only
  adds the note to the sustain set (registry and audio log are untouched), and the
  sustained count grows by one when the note was not in the set and stays as it is when
  the note was already there; a note-off with the pedal up is \<open>releaseNote\<close>, after
  which every voice of the note is releasing; and pedal up leaves the sustain set empty,
  the count at 0, and every voice of every note that was in the set releasing.
\<close>

theorem sustain_pedal_defers_release:
  assumes "map_of (voices s) n = Some vs" and "vs \<noteq> []"
  shows "(sustainPedal s \<longrightarrow>
            noteOff env s n = s\<lparr>sustainedNotes := setAdd n (sustainedNotes s)\<rparr>
            \<and> n \<in> set (sustainedNotes (noteOff env s n))
            \<and> voices (noteOff env s n) = voices s
            \<and> audioLog (noteOff env s n) = audioLog s
            \<and> sustainedNoteCount (getStats (noteOff env s n))
                = sustainedNoteCount (getStats s) + (if n \<in> set (sustainedNotes s) then 0 else 1))
         \<and> (\<not> sustainPedal s \<longrightarrow>
            noteOff env s n = releaseNote env s n
            \<and> map_of (voices (noteOff env s n)) n = Some (map (fst \<circ> releaseVoice env) vs)
            \<and> noteReleasing (noteOff env s n) n
            \<and> sustainedNotes (noteOff env s n) = sustainedNotes s)
         \<and> sustainedNotes (setSustainPedal env s False) = []
         \<and> sustainedNoteCount (getStats (setSustainPedal env s False)) = 0
         \<and> \<not> sustainPedal (setSustainPedal env s False)
         \<and> (\<forall>m\<in>set (sustainedNotes s). noteReleasing (setSustainPedal env s False) m)"
proof (intro conjI impI ballI)
  assume down: "sustainPedal s"
  then show off: "noteOff env s n = s\<lparr>sustainedNotes := setAdd n (sustainedNotes s)\<rparr>"
    using assms by (simp add: noteOff_def)
  show "n \<in> set (sustainedNotes (noteOff env s n))"
    by (simp add: off setAdd_def)
  show "voices (noteOff env s n) = voices s"
    by (simp add: off)
  show "audioLog (noteOff env s n) = audioLog s"
    by (simp add: off)
  show "sustainedNoteCount (getStats (noteOff env s n))
          = sustainedNoteCount (getStats s) + (if n \<in> set (sustainedNotes s) then 0 else 1)"
    by (simp add: off getStats_def setAdd_def)
next
  assume up: "\<not> sustainPedal s"
  then show off: "noteOff env s n = releaseNote env s n"
    using assms by (simp add: noteOff_def)
  show "map_of (voices (noteOff env s n)) n = Some (map (fst \<circ> releaseVoice env) vs)"
    using assms(1) by (simp add: off map_of_releaseNote)
  show "noteReleasing (noteOff env s n) n"
    by (simp add: off noteReleasing_releaseNote_same)
  show "sustainedNotes (noteOff env s n) = sustainedNotes s"
    by (simp add: off)
next
  show "sustainedNotes (setSustainPedal env s False) = []"
    by (simp add: setSustainPedal_def Let_def)
  show "sustainedNoteCount (getStats (setSustainPedal env s False)) = 0"
    by (simp add: setSustainPedal_def Let_def getStats_def)
  show "\<not> sustainPedal (setSustainPedal env s False)"
    by (simp add: setSustainPedal_def Let_def)
next
  fix m assume "m \<in> set (sustainedNotes s)"
  then have "noteReleasing (foldl (releaseNote env) (s\<lparr>sustainPedal := False\<rparr>) (sustainedNotes s)) m"
    by (rule noteReleasing_foldl)
  then show "noteReleasing (setSustainPedal env s False) m"
    by (simp add: setSustainPedal_def Let_def)
qed

theorem sustain_pedal_defers_release_witness:
  "sustainPedal struckPedalDown
   \<and> sustainedNoteCount (getStats struckPedalDown) = 0
   \<and> sustainedNoteCount (getStats (noteOff (envAt 2) struckPedalDown 64)) = 1
   \<and> voices (noteOff (envAt 2) struckPedalDown 64) = voices struckPedalDown
   \<and> \<not> noteReleasing (noteOff (envAt 2) struckPedalDown 64) 64
   \<and> sustainedNotes pedalHeld = [64]
   \<and> sustainedNoteCount (getStats (setSustainPedal (envAt 3) pedalHeld False)) = 0
   \<and> noteReleasing (setSustainPedal (envAt 3) pedalHeld False) 64
   \<and> \<not> sustainPedal struckPedalUp
   \<and> noteReleasing (noteOff (envAt 2) struckPedalUp 64) 64"
proof -
  have down: "sustainPedal struckPedalDown" "sustainedNotes struckPedalDown = []"
    "\<not> noteReleasing struckPedalDown 64"
    "map_of (voices struckPedalDown) 64 \<noteq> None" "map_of (voices struckPedalDown) 64 \<noteq> Some []"
    by code_simp+
  then obtain vs where vs: "map_of (voices struckPedalDown) 64 = Some vs" "vs \<noteq> []"
    by auto
  have held: "sustainedNotes pedalHeld = [64]"
    "map_of (voices pedalHeld) 64 \<noteq> None" "map_of (voices pedalHeld) 64 \<noteq> Some []"
    by code_simp+
  then obtain hs where hs: "map_of (voices pedalHeld) 64 = Some hs" "hs \<noteq> []"
    by auto
  have up: "\<not> sustainPedal struckPedalUp"
    "map_of (voices struckPedalUp) 64 \<noteq> None" "map_of (voices struckPedalUp) 64 \<noteq> Some []"
    by code_simp+
  then obtain us where us: "map_of (voices struckPedalUp) 64 = Some us" "us \<noteq> []"
    by auto
  have same: "voices (noteOff (envAt 2) struckPedalDown 64) = voices struckPedalDown"
    using sustain_pedal_defers_release [OF vs, of "envAt 2"] down(1) by simp
  have "\<not> noteReleasing (noteOff (envAt 2) struckPedalDown 64) 64"
    using down(3) same by (simp add: noteReleasing_def)
  then show ?thesis
    using sustain_pedal_defers_release [OF vs, of "envAt 2"]
      sustain_pedal_defers_release [OF hs, of "envAt 3"]
      sustain_pedal_defers_release [OF us, of "envAt 2"]
      down held up
    by (simp add: getStats_def setAdd_def noteReleasing_releaseNote_same)
qed

text \<open>
  Claim C8, as stated, fails where the note is already in the sustain set: with the
  pedal down and a live voice on note 64 whose note-off has been deferred once, a second
  note-off leaves the sustained count at 1.
\<close>

theorem noteOff_count_counterexample:
  "sustainPedal pedalHeld
   \<and> map_of (voices pedalHeld) 64 \<noteq> None \<and> map_of (voices pedalHeld) 64 \<noteq> Some []
   \<and> sustainedNoteCount (getStats pedalHeld) = 1
   \<and> sustainedNoteCount (getStats (noteOff (envAt 3) pedalHeld 64)) = 1"
  by code_simp

section \<open>The sample cache\<close>

text \<open>The unfolding of the eviction loop, as a code equation.\<close>

lemma evictWhileFull_code [code]:
  "evictWhileFull m =
     (if int (length (cache m)) \<ge> maxCacheSize m then evictWhileFull (evictLRU m)
      else Some m)"
  by (rule evictWhileFull.simps)

lemma oldestStep_fst: "fst (oldestStep acc ide) = Some k \<Longrightarrow> k = fst ide \<or> fst acc = Some k"
  by (auto simp: oldestStep_def split: if_splits)

lemma oldestStep_ok: "oldestOk seen acc \<Longrightarrow> oldestOk (seen @ [ide]) (oldestStep acc ide)"
  by (cases acc; cases ide) (fastforce simp: oldestOk_def oldestStep_def split: option.splits)

lemma foldl_oldestStep_ok:
  "oldestOk seen acc \<Longrightarrow> oldestOk (seen @ es) (foldl oldestStep acc es)"
proof (induction es arbitrary: seen acc)
  case Nil
  then show ?case by simp
next
  case (Cons ide es)
  from Cons.IH[OF oldestStep_ok[OF Cons.prems, of ide]] show ?case by simp
qed

lemma oldestScan_ok: "oldestOk es (oldestScan es)"
  using foldl_oldestStep_ok[of "[]" "(None, None)" es]
  by (simp add: oldestScan_def oldestOk_def)

lemma oldestScan_None: "fst (oldestScan es) = None \<longleftrightarrow> es = []"
  using oldestScan_ok[of es] by (auto simp: oldestOk_def split: option.splits)

lemma oldestScan_Some:
  "fst (oldestScan es) = Some k \<Longrightarrow>
     \<exists>e. (k, e) \<in> set es \<and> (\<forall>ide\<in>set es. lastAccessed e \<le> lastAccessed (snd ide))"
  using oldestScan_ok[of es] by (auto simp: oldestOk_def split: option.splits)

lemma length_delete_less:
  "k \<in> fst ` set al \<Longrightarrow> length (AList.delete k al) < length al"
proof (induction al)
  case Nil
  then show ?case by simp
next
  case (Cons p al)
  show ?case
  proof (cases "fst p = k")
    case True
    then show ?thesis
      using length_delete_le[of k al] by (cases p) (simp add: less_Suc_eq_le)
  next
    case False
    then have "k \<in> fst ` set al" using Cons.prems by auto
    then show ?thesis using Cons.IH False by (cases p) auto
  qed
qed

lemma evictLRU_length:
  "cache m \<noteq> [] \<Longrightarrow> length (cache (evictLRU m)) < length (cache m)"
proof -
  assume ne: "cache m \<noteq> []"
  then obtain k where k: "fst (oldestScan (cache m)) = Some k"
    using oldestScan_None[of "cache m"] by (cases "fst (oldestScan (cache m))") auto
  then obtain e where e: "(k, e) \<in> set (cache m)"
    using oldestScan_Some by blast
  then have dom: "k \<in> fst ` set (cache m)" by force
  then obtain e' where e': "map_of (cache m) k = Some e'"
    by (cases "map_of (cache m) k") (auto simp: map_of_eq_None_iff)
  show ?thesis
    using k e' length_delete_less[OF dom] by (simp add: evictLRU_def)
qed

lemma evictLRU_maxCacheSize [simp]: "maxCacheSize (evictLRU m) = maxCacheSize m"
  by (simp add: evictLRU_def split: option.splits)

lemma evictWhileFull_terminates:
  assumes "1 \<le> maxCacheSize m"
  shows "\<exists>m'. evictWhileFull m = Some m' \<and> int (length (cache m')) < maxCacheSize m
              \<and> maxCacheSize m' = maxCacheSize m \<and> length (cache m') \<le> length (cache m)"
  using assms
proof (induction "length (cache m)" arbitrary: m rule: less_induct)
  case less
  show ?case
  proof (cases "int (length (cache m)) \<ge> maxCacheSize m")
    case False
    then show ?thesis by (subst evictWhileFull.simps) simp
  next
    case True
    then have ne: "cache m \<noteq> []" using less.prems by auto
    have lt: "length (cache (evictLRU m)) < length (cache m)"
      by (rule evictLRU_length[OF ne])
    from less.hyps[OF lt] less.prems
    obtain m' where m': "evictWhileFull (evictLRU m) = Some m'"
      "int (length (cache m')) < maxCacheSize m" "maxCacheSize m' = maxCacheSize m"
      "length (cache m') \<le> length (cache (evictLRU m))"
      by auto
    have "evictWhileFull m = Some m'"
      using True m'(1) by (subst evictWhileFull.simps) simp
    then show ?thesis using m' lt by auto
  qed
qed


lemma length_update:
  "length (AList.update k v al) = (if k \<in> fst ` set al then length al else Suc (length al))"
  by (induction al) auto

lemma length_delete_distinct:
  "distinct (map fst al) \<Longrightarrow> k \<in> fst ` set al \<Longrightarrow>
     Suc (length (AList.delete k al)) = length al"
  by (induction al) (auto simp: rev_image_eqI)

lemma evictLRU_distinct:
  "distinct (map fst (cache m)) \<Longrightarrow> distinct (map fst (cache (evictLRU m)))"
  by (simp add: evictLRU_def distinct_delete split: option.splits)

lemma evictWhileFull_distinct:
  assumes "1 \<le> maxCacheSize m" and "distinct (map fst (cache m))"
    and "evictWhileFull m = Some m'"
  shows "distinct (map fst (cache m'))"
  using assms
proof (induction "length (cache m)" arbitrary: m rule: less_induct)
  case less
  show ?case
  proof (cases "int (length (cache m)) \<ge> maxCacheSize m")
    case False
    then show ?thesis using less.prems by (subst (asm) evictWhileFull.simps) simp
  next
    case True
    then have ne: "cache m \<noteq> []" using less.prems by auto
    have step: "evictWhileFull (evictLRU m) = Some m'"
      using True less.prems(3) by (subst (asm) evictWhileFull.simps) simp
    show ?thesis
      using less.hyps[OF evictLRU_length[OF ne] _ evictLRU_distinct[OF less.prems(2)] step]
        less.prems(1) by simp
  qed
qed

lemma insertEntry_length:
  "int (length (cache m)) < c \<Longrightarrow> int (length (cache (insertEntry now m sid buf))) \<le> c"
  by (simp add: insertEntry_def Let_def length_update)

lemma insertEntry_maxCacheSize [simp]: "maxCacheSize (insertEntry now m sid buf) = maxCacheSize m"
  by (simp add: insertEntry_def Let_def)

lemma insertEntry_distinct:
  "distinct (map fst (cache m)) \<Longrightarrow> distinct (map fst (cache (insertEntry now m sid buf)))"
  by (simp add: insertEntry_def Let_def distinct_update)

lemma addToCache_bounded:
  assumes "1 \<le> maxCacheSize m"
  shows "\<exists>m1. evictWhileFull m = Some m1 \<and> int (length (cache m1)) < maxCacheSize m
           \<and> addToCache now m sid buf = Some (insertEntry now m1 sid buf)
           \<and> int (length (cache (insertEntry now m1 sid buf))) \<le> maxCacheSize m
           \<and> maxCacheSize (insertEntry now m1 sid buf) = maxCacheSize m"
proof -
  from evictWhileFull_terminates[OF assms]
  obtain m1 where m1: "evictWhileFull m = Some m1" "int (length (cache m1)) < maxCacheSize m"
    "maxCacheSize m1 = maxCacheSize m"
    by blast
  then show ?thesis
    using insertEntry_length[OF m1(2)] by (simp add: addToCache_def)
qed

lemma loadSample_ok:
  assumes "1 \<le> c" and "cacheOk c m"
  shows "\<exists>m' res. loadSample now m sid = Some (m', res) \<and> cacheOk c m'"
proof (cases "map_of (cache m) sid")
  case (Some cached)
  then have "sid \<in> fst ` set (cache m)"
    by (meson domI domIff map_of_eq_None_iff)
  then show ?thesis
    using Some assms(2) by (simp add: loadSample_def cacheOk_def length_update distinct_update)
next
  case None
  show ?thesis
  proof (cases "getSampleData (sm_sf2Data m) sid")
    case noSample: None
    then show ?thesis using None assms(2) by (simp add: loadSample_def)
  next
    case (Some sample)
    have pos: "1 \<le> maxCacheSize m" using assms by (simp add: cacheOk_def)
    from addToCache_bounded[OF pos, of now sid "createAudioBuffer sample"]
    obtain m1 where m1: "evictWhileFull m = Some m1"
      "addToCache now m sid (createAudioBuffer sample)
         = Some (insertEntry now m1 sid (createAudioBuffer sample))"
      "int (length (cache (insertEntry now m1 sid (createAudioBuffer sample)))) \<le> maxCacheSize m"
      by blast
    have "distinct (map fst (cache m1))"
      using evictWhileFull_distinct[OF pos _ m1(1)] assms(2) by (simp add: cacheOk_def)
    then have "cacheOk c (insertEntry now m1 sid (createAudioBuffer sample))"
      using m1(3) assms(2) evictWhileFull_terminates[OF pos] m1(1)
      by (auto simp: cacheOk_def insertEntry_distinct)
    then show ?thesis
      using None Some m1(2) by (simp add: loadSample_def Let_def)
  qed
qed

lemma loadSamples_ok:
  assumes "1 \<le> c" and "cacheOk c m"
  shows "\<exists>m'. loadSamples m reqs = Some m' \<and> cacheOk c m'"
  using assms(2)
proof (induction reqs arbitrary: m)
  case Nil
  then show ?case by simp
next
  case (Cons req reqs)
  obtain now sid where req: "req = (now, sid)" by (cases req)
  from loadSample_ok[OF assms(1) Cons.prems, of now sid]
  obtain m1 res where m1: "loadSample now m sid = Some (m1, res)" "cacheOk c m1"
    by blast
  from Cons.IH[OF m1(2)] show ?case
    using m1(1) req by simp
qed

lemma evictLRU_oldest:
  assumes "cache m \<noteq> []" and "distinct (map fst (cache m))"
  shows "\<exists>k e. map_of (cache m) k = Some e
           \<and> (\<forall>ide\<in>set (cache m). lastAccessed e \<le> lastAccessed (snd ide))
           \<and> cache (evictLRU m) = AList.delete k (cache m)
           \<and> length (cache (evictLRU m)) = length (cache m) - 1"
proof -
  obtain k where k: "fst (oldestScan (cache m)) = Some k"
    using oldestScan_None[of "cache m"] assms(1) by (cases "fst (oldestScan (cache m))") auto
  then obtain e where e: "(k, e) \<in> set (cache m)"
    "\<forall>ide\<in>set (cache m). lastAccessed e \<le> lastAccessed (snd ide)"
    using oldestScan_Some by blast
  have me: "map_of (cache m) k = Some e"
    using e(1) assms(2) by simp
  have "k \<in> fst ` set (cache m)"
    using e(1) by force
  then have "length (AList.delete k (cache m)) = length (cache m) - 1"
    using length_delete_distinct[OF assms(2), of k] by simp
  then show ?thesis
    using k me e(2) by (auto simp: evictLRU_def)
qed


text \<open>
  Claim C4. On a manager built with no configured capacity (then 150) or a configured
  capacity that is not negative (0 counts as unset), every sequence of loads returns and
  leaves at most \<open>maxCacheSize\<close> entries; in the state \<open>m\<close> it leaves, \<open>addToCache\<close>
  first runs the eviction loop, which ends with fewer than \<open>maxCacheSize\<close> entries, and
  only then inserts, ending with at most \<open>maxCacheSize\<close>; and \<open>evictLRU\<close> on a cache
  that is not empty removes exactly the entry of one key, an entry whose \<open>lastAccessed\<close>
  is the smallest of all.
\<close>

theorem cache_never_over_capacity:
  assumes "cfg = None \<or> (\<exists>c. cfg = Some c \<and> 0 \<le> c)"
  shows "\<exists>m. loadSamples (newSampleManager sf2 cfg) reqs = Some m
           \<and> int (length (cache m)) \<le> maxCacheSize (newSampleManager sf2 cfg)
           \<and> maxCacheSize m = maxCacheSize (newSampleManager sf2 cfg)
           \<and> maxCacheSize (newSampleManager sf2 None) = 150
           \<and> (\<exists>m1. evictWhileFull m = Some m1
                  \<and> int (length (cache m1)) < maxCacheSize m
                  \<and> addToCache now m sid buf = Some (insertEntry now m1 sid buf)
                  \<and> int (length (cache (insertEntry now m1 sid buf))) \<le> maxCacheSize m)
           \<and> (cache m \<noteq> [] \<longrightarrow>
                (\<exists>k e. map_of (cache m) k = Some e
                   \<and> (\<forall>ide\<in>set (cache m). lastAccessed e \<le> lastAccessed (snd ide))
                   \<and> cache (evictLRU m) = AList.delete k (cache m)
                   \<and> length (cache (evictLRU m)) = length (cache m) - 1))"
proof -
  let ?m0 = "newSampleManager sf2 cfg"
  let ?c = "maxCacheSize ?m0"
  have pos: "1 \<le> ?c"
    using assms by (auto simp: newSampleManager_def)
  have "cacheOk ?c ?m0"
    using pos by (simp add: cacheOk_def) (simp add: newSampleManager_def)
  from loadSamples_ok[OF pos this, of reqs]
  obtain m where m: "loadSamples ?m0 reqs = Some m" "cacheOk ?c m"
    by blast
  have mc: "maxCacheSize m = ?c" and len: "int (length (cache m)) \<le> ?c"
    and dist: "distinct (map fst (cache m))"
    using m(2) by (simp_all add: cacheOk_def)
  have pos': "1 \<le> maxCacheSize m" using pos mc by simp
  have dflt: "maxCacheSize (newSampleManager sf2 None) = 150"
    by (simp add: newSampleManager_def)
  have add: "\<exists>m1. evictWhileFull m = Some m1
                  \<and> int (length (cache m1)) < maxCacheSize m
                  \<and> addToCache now m sid buf = Some (insertEntry now m1 sid buf)
                  \<and> int (length (cache (insertEntry now m1 sid buf))) \<le> maxCacheSize m"
    using addToCache_bounded[OF pos', of now sid buf] by blast
  have ev: "cache m \<noteq> [] \<longrightarrow>
                (\<exists>k e. map_of (cache m) k = Some e
                   \<and> (\<forall>ide\<in>set (cache m). lastAccessed e \<le> lastAccessed (snd ide))
                   \<and> cache (evictLRU m) = AList.delete k (cache m)
                   \<and> length (cache (evictLRU m)) = length (cache m) - 1)"
    using evictLRU_oldest[OF _ dist] by blast
  show ?thesis
    using m(1) len mc dflt add ev by blast
qed

theorem cache_never_over_capacity_witness:
  "map_option (\<lambda>m. map (\<lambda>ide. (fst ide, lastAccessed (snd ide))) (cache m))
      (loadSamples (newSampleManager bankB (Some 2)) (take 3 fourLoads))
     = Some [(0, 30), (1, 20)]
   \<and> map_option (\<lambda>m. map (\<lambda>ide. (fst ide, lastAccessed (snd ide))) (cache m))
      (loadSamples (newSampleManager bankB (Some 2)) fourLoads)
     = Some [(0, 30), (2, 40)]
   \<and> (\<exists>m. loadSamples (newSampleManager bankB (Some 2)) fourLoads = Some m
          \<and> int (length (cache m)) \<le> 2)"
proof -
  have cfg: "Some (2::int) = None \<or> (\<exists>c. Some (2::int) = Some c \<and> 0 \<le> c)"
    by simp
  have c: "maxCacheSize (newSampleManager bankB (Some 2)) = 2"
    by (simp add: newSampleManager_def)
  have three: "map_option (\<lambda>m. map (\<lambda>ide. (fst ide, lastAccessed (snd ide))) (cache m))
      (loadSamples (newSampleManager bankB (Some 2)) (take 3 fourLoads))
     = Some [(0, 30), (1, 20)]"
    by code_simp
  have four: "map_option (\<lambda>m. map (\<lambda>ide. (fst ide, lastAccessed (snd ide))) (cache m))
      (loadSamples (newSampleManager bankB (Some 2)) fourLoads)
     = Some [(0, 30), (2, 40)]"
    by code_simp
  from cache_never_over_capacity [OF cfg, of bankB fourLoads]
  obtain m where "loadSamples (newSampleManager bankB (Some 2)) fourLoads = Some m"
    "int (length (cache m)) \<le> maxCacheSize (newSampleManager bankB (Some 2))"
    by blast
  then show ?thesis
    using three four c by auto
qed

section \<open>The parser\<close>

lemma bindE_Inr_iff: "bindE m f = Inr y \<longleftrightarrow> (\<exists>x. m = Inr x \<and> f x = Inr y)"
  by (cases m) (simp_all add: bindE_def)

lemma bindE_Inl [simp]: "bindE (Inl e) f = Inl e"
  by (simp add: bindE_def)

lemma bindE_Inr [simp]: "bindE (Inr x) f = f x"
  by (simp add: bindE_def)

lemma validateRIFF_Inr:
  "validateRIFF b = Inr u \<Longrightarrow> readFourCC b 0 = Inr ''RIFF'' \<and> readFourCC b 8 = Inr ''sfbk''"
  by (auto simp: validateRIFF_def bindE_Inr_iff split: if_splits)

lemma checkRequired_Inr:
  "checkRequired subs cs = Inr u \<Longrightarrow> \<forall>c\<in>set cs. map_of subs c \<noteq> None"
  by (induction cs) (auto split: if_splits)

lemma parsePDTA_Inr_required:
  "parsePDTA b off s0 = Inr r \<Longrightarrow>
     \<exists>subs. scanPDTA b off = Inr subs \<and> (\<forall>c\<in>set requiredChunks. map_of subs c \<noteq> None)"
  unfolding parsePDTA_def bindE_Inr_iff using checkRequired_Inr by blast

lemma parse_Inr_stages:
  assumes "parse b = Inr r"
  shows "\<exists>chunks infoRec s0 res.
           validateRIFF b = Inr () \<and> findChunks b = Inr chunks
           \<and> parseINFO b (INFO chunks) = Inr infoRec \<and> parseSDTA b (SDTA chunks) = Inr s0
           \<and> parsePDTA b (PDTA chunks) s0 = Inr res
           \<and> r = (\<lparr>info = infoRec, samples = fst res, presets = fst (snd res),
                     instruments = fst (snd (snd res))\<rparr>, snd (snd (snd res)))"
proof -
  from assms have "parseStages b = Inr r"
    by (simp add: parse_def split: sum.splits)
  then show ?thesis
    unfolding parseStages_def bindE_Inr_iff by (auto split: prod.splits)
qed

lemma parse_Inl_wrapped: "isl (parse b) \<Longrightarrow> \<exists>e. parse b = Inl (SF2ParseError e)"
  by (auto simp: parse_def split: sum.splits)


subsection \<open>Evaluation on the small bank file\<close>

text \<open>The bytes of the three files, derived from their definitions, and the character
  codes of printable ASCII.\<close>

lemmas fixture_defs = chunkBytes_def listBytes_def infoList_def sdtaList_def presetChunks_def
  shdrChunk_def le16_def le16s_def le32_def ascii_def name20_def shdrBytes_def genBytes_def
  bagBytes_def phdrBytes_def instBytes_def

lemma nth_of_eq: "xs = ys \<Longrightarrow> xs ! n = ys ! n"
  by simp

lemmas smallBank_bytes = smallBank_def [unfolded fixture_defs, simplified]

lemmas smallBank_nth = nth_of_eq [OF smallBank_bytes]

lemma smallBank_length: "length smallBank = 496"
  by (simp add: smallBank_bytes)

lemmas noSampleHeaders_bytes = noSampleHeaders_def [unfolded fixture_defs, simplified]

lemmas noSampleHeaders_nth = nth_of_eq [OF noSampleHeaders_bytes]

lemma noSampleHeaders_length: "length noSampleHeaders = 304"
  by (simp add: noSampleHeaders_bytes)

lemmas wrongSignature_bytes = wrongSignature_def [unfolded fixture_defs, simplified]

lemmas wrongSignature_nth = nth_of_eq [OF wrongSignature_bytes]

lemma wrongSignature_length: "length wrongSignature = 496"
  by (simp add: wrongSignature_bytes)

lemma char_codes:
  "char_of (32::nat) = CHR '' ''" "char_of (33::nat) = CHR ''!''" "char_of (34::nat) = CHR 0x22"
  "char_of (35::nat) = CHR ''#''" "char_of (36::nat) = CHR ''$''" "char_of (37::nat) = CHR ''%''"
  "char_of (38::nat) = CHR ''&''" "char_of (39::nat) = CHR 0x27" "char_of (40::nat) = CHR ''(''"
  "char_of (41::nat) = CHR '')''" "char_of (42::nat) = CHR ''*''" "char_of (43::nat) = CHR ''+''"
  "char_of (44::nat) = CHR '',''" "char_of (45::nat) = CHR ''-''" "char_of (46::nat) = CHR ''.''"
  "char_of (47::nat) = CHR ''/''" "char_of (48::nat) = CHR ''0''" "char_of (49::nat) = CHR ''1''"
  "char_of (50::nat) = CHR ''2''" "char_of (51::nat) = CHR ''3''" "char_of (52::nat) = CHR ''4''"
  "char_of (53::nat) = CHR ''5''" "char_of (54::nat) = CHR ''6''" "char_of (55::nat) = CHR ''7''"
  "char_of (56::nat) = CHR ''8''" "char_of (57::nat) = CHR ''9''" "char_of (58::nat) = CHR '':''"
  "char_of (59::nat) = CHR '';''" "char_of (60::nat) = CHR ''<''" "char_of (61::nat) = CHR ''=''"
  "char_of (62::nat) = CHR ''>''" "char_of (63::nat) = CHR ''?''" "char_of (64::nat) = CHR ''@''"
  "char_of (65::nat) = CHR ''A''" "char_of (66::nat) = CHR ''B''" "char_of (67::nat) = CHR ''C''"
  "char_of (68::nat) = CHR ''D''" "char_of (69::nat) = CHR ''E''" "char_of (70::nat) = CHR ''F''"
  "char_of (71::nat) = CHR ''G''" "char_of (72::nat) = CHR ''H''" "char_of (73::nat) = CHR ''I''"
  "char_of (74::nat) = CHR ''J''" "char_of (75::nat) = CHR ''K''" "char_of (76::nat) = CHR ''L''"
  "char_of (77::nat) = CHR ''M''" "char_of (78::nat) = CHR ''N''" "char_of (79::nat) = CHR ''O''"
  "char_of (80::nat) = CHR ''P''" "char_of (81::nat) = CHR ''Q''" "char_of (82::nat) = CHR ''R''"
  "char_of (83::nat) = CHR ''S''" "char_of (84::nat) = CHR ''T''" "char_of (85::nat) = CHR ''U''"
  "char_of (86::nat) = CHR ''V''" "char_of (87::nat) = CHR ''W''" "char_of (88::nat) = CHR ''X''"
  "char_of (89::nat) = CHR ''Y''" "char_of (90::nat) = CHR ''Z''" "char_of (91::nat) = CHR ''[''"
  "char_of (92::nat) = CHR 0x5C" "char_of (93::nat) = CHR '']''" "char_of (94::nat) = CHR ''^''"
  "char_of (95::nat) = CHR ''_''" "char_of (96::nat) = CHR 0x60" "char_of (97::nat) = CHR ''a''"
  "char_of (98::nat) = CHR ''b''" "char_of (99::nat) = CHR ''c''" "char_of (100::nat) = CHR ''d''"
  "char_of (101::nat) = CHR ''e''" "char_of (102::nat) = CHR ''f''" "char_of (103::nat) = CHR ''g''"
  "char_of (104::nat) = CHR ''h''" "char_of (105::nat) = CHR ''i''" "char_of (106::nat) = CHR ''j''"
  "char_of (107::nat) = CHR ''k''" "char_of (108::nat) = CHR ''l''" "char_of (109::nat) = CHR ''m''"
  "char_of (110::nat) = CHR ''n''" "char_of (111::nat) = CHR ''o''" "char_of (112::nat) = CHR ''p''"
  "char_of (113::nat) = CHR ''q''" "char_of (114::nat) = CHR ''r''" "char_of (115::nat) = CHR ''s''"
  "char_of (116::nat) = CHR ''t''" "char_of (117::nat) = CHR ''u''" "char_of (118::nat) = CHR ''v''"
  "char_of (119::nat) = CHR ''w''" "char_of (120::nat) = CHR ''x''" "char_of (121::nat) = CHR ''y''"
  "char_of (122::nat) = CHR ''z''" "char_of (123::nat) = CHR ''{''" "char_of (124::nat) = CHR ''|''"
  "char_of (125::nat) = CHR ''}''" "char_of (126::nat) = CHR ''~''"
  by code_simp+

lemmas dataView_defs = getUint8_def getInt8_def getUint16_def getUint32_def readFourCC_def bindE_def

lemma readString_numeral:
  "readString b off (numeral k) =
     (case getUint8 b off of
        Inl e \<Rightarrow> Inl e
      | Inr c \<Rightarrow>
          if c = 0 then Inr []
          else (case readString b (Suc off) (pred_numeral k) of
                  Inl e \<Rightarrow> Inl e
                | Inr str \<Rightarrow> Inr (char_of c # str)))"
  by (simp add: numeral_eq_Suc)

lemma smallBank_validateRIFF: "validateRIFF smallBank = Inr ()"
  by (simp add: validateRIFF_def dataView_defs smallBank_length smallBank_nth char_codes)

lemma smallBank_findChunks: "findChunks smallBank = Inr \<lparr>INFO = 12, SDTA = 48, PDTA = 76\<rparr>"
  by (simp add: findChunks_def findChunksStep_def dataView_defs smallBank_length smallBank_nth
      char_codes)

lemma smallBank_parseINFO:
  "parseINFO smallBank 12 = Inr (emptyInfo\<lparr>version := (2, 1), bankName := ''Pno''\<rparr>)"
  by (simp add: parseINFO_def parseINFOStep_def parseInfoField_def readString_numeral
      dataView_defs smallBank_length smallBank_nth char_codes)

lemma smallBank_parseSDTA: "parseSDTA smallBank 48 = Inr []"
  by (simp add: parseSDTA_def int16Array_def dataView_defs smallBank_length smallBank_nth
      char_codes)

lemma smallBank_scanPDTA:
  "scanPDTA smallBank 76 =
     Inr [(''phdr'', \<lparr>offset = 96, csize = 76\<rparr>), (''pbag'', \<lparr>offset = 180, csize = 8\<rparr>),
          (''pgen'', \<lparr>offset = 196, csize = 8\<rparr>), (''inst'', \<lparr>offset = 212, csize = 44\<rparr>),
          (''ibag'', \<lparr>offset = 264, csize = 12\<rparr>), (''igen'', \<lparr>offset = 284, csize = 20\<rparr>),
          (''shdr'', \<lparr>offset = 312, csize = 184\<rparr>)]"
  by (simp add: scanPDTA_def scanPDTAStep_def dataView_defs smallBank_length smallBank_nth
      char_codes)

lemma smallBank_sampleHeaders:
  "parseSampleHeaders smallBank \<lparr>offset = 312, csize = 184\<rparr> =
     Inr [\<lparr>start = 0, endIdx = 2, startLoop = 0, endLoop = 2, sampleRate = 48000,
            originalPitch = 60, pitchCorrection = 0, sampleLink = 1, sampleType = 4,
            hname = ''L''\<rparr>,
          \<lparr>start = 2, endIdx = 4, startLoop = 2, endLoop = 4, sampleRate = 48000,
            originalPitch = 60, pitchCorrection = 0, sampleLink = 0, sampleType = 2,
            hname = ''R''\<rparr>,
          \<lparr>start = 4, endIdx = 9, startLoop = 4, endLoop = 9, sampleRate = 0,
            originalPitch = 0, pitchCorrection = 5, sampleLink = 0, sampleType = 1,
            hname = []\<rparr>]"
  by (simp add: parseSampleHeaders_def readSampleHeader_def readString_numeral dataView_defs
      smallBank_length smallBank_nth char_codes)

lemma smallBank_sampleBlock: "sampleBlock smallBank = Inr [100, - 200, 300, - 400]"
  by (simp add: sampleBlock_def smallBank_findChunks int16Array_def dataView_defs
      smallBank_length smallBank_nth upt_rec)

lemma smallBank_parsePDTA:
  "map_sum id (\<lambda>r. (fst r, snd (snd (snd r)))) (parsePDTA smallBank 76 []) =
     Inr ([\<lparr>sname = ''L'', data = [100, - 200],
             header = \<lparr>start = 0, endIdx = 2, startLoop = 0, endLoop = 2, sampleRate = 48000,
                       originalPitch = 60, pitchCorrection = 0\<rparr>\<rparr>,
           \<lparr>sname = ''R'', data = [300, - 400],
             header = \<lparr>start = 2, endIdx = 4, startLoop = 2, endLoop = 4, sampleRate = 48000,
                       originalPitch = 60, pitchCorrection = 0\<rparr>\<rparr>,
           \<lparr>sname = ''Sample 2'', data = [],
             header = \<lparr>start = 0, endIdx = 0, startLoop = 0, endLoop = 0, sampleRate = 44100,
                       originalPitch = 60, pitchCorrection = 0\<rparr>\<rparr>],
          [InvalidIndices 2 [] 4 9 4])"
  by (simp add: parsePDTA_def smallBank_scanPDTA smallBank_sampleHeaders smallBank_sampleBlock
      requiredChunks_def getChunk_def buildSamples_def buildSample_def invalidIndices_def
      sampleName_def slice_list_def enumerate_eq_zip upt_rec
      parseInstruments_def readInstrument_def parseBags_def parseGenerators_def zoneOfBag_def
      parsePresets_def readPreset_def presetZones_def buildZone_def applyGenerator_def
      defaultZone_def readString_numeral dataView_defs smallBank_length smallBank_nth
      char_codes Let_def)

lemma parse_smallBank:
  "\<not> isl (parse smallBank)"
  "samplesOf (parse smallBank) =
     [\<lparr>sname = ''L'', data = [100, - 200],
        header = \<lparr>start = 0, endIdx = 2, startLoop = 0, endLoop = 2, sampleRate = 48000,
                  originalPitch = 60, pitchCorrection = 0\<rparr>\<rparr>,
      \<lparr>sname = ''R'', data = [300, - 400],
        header = \<lparr>start = 2, endIdx = 4, startLoop = 2, endLoop = 4, sampleRate = 48000,
                  originalPitch = 60, pitchCorrection = 0\<rparr>\<rparr>,
      \<lparr>sname = ''Sample 2'', data = [],
        header = \<lparr>start = 0, endIdx = 0, startLoop = 0, endLoop = 0, sampleRate = 44100,
                  originalPitch = 60, pitchCorrection = 0\<rparr>\<rparr>]"
  "warningsOf (parse smallBank) = [InvalidIndices 2 [] 4 9 4]"
proof -
  obtain res where res: "parsePDTA smallBank 76 [] = Inr res"
    using smallBank_parsePDTA by (cases "parsePDTA smallBank 76 []") auto
  then have stages: "parseStages smallBank =
      Inr (\<lparr>info = emptyInfo\<lparr>version := (2, 1), bankName := ''Pno''\<rparr>, samples = fst res,
             presets = fst (snd res), instruments = fst (snd (snd res))\<rparr>, snd (snd (snd res)))"
    by (simp add: parseStages_def smallBank_validateRIFF smallBank_findChunks
        smallBank_parseINFO smallBank_parseSDTA split: prod.splits)
  show "\<not> isl (parse smallBank)"
    by (simp add: parse_def stages)
  show "samplesOf (parse smallBank) =
     [\<lparr>sname = ''L'', data = [100, - 200],
        header = \<lparr>start = 0, endIdx = 2, startLoop = 0, endLoop = 2, sampleRate = 48000,
                  originalPitch = 60, pitchCorrection = 0\<rparr>\<rparr>,
      \<lparr>sname = ''R'', data = [300, - 400],
        header = \<lparr>start = 2, endIdx = 4, startLoop = 2, endLoop = 4, sampleRate = 48000,
                  originalPitch = 60, pitchCorrection = 0\<rparr>\<rparr>,
      \<lparr>sname = ''Sample 2'', data = [],
        header = \<lparr>start = 0, endIdx = 0, startLoop = 0, endLoop = 0, sampleRate = 44100,
                  originalPitch = 60, pitchCorrection = 0\<rparr>\<rparr>]"
    using smallBank_parsePDTA by (simp add: parse_def stages samplesOf_def res)
  show "warningsOf (parse smallBank) = [InvalidIndices 2 [] 4 9 4]"
    using smallBank_parsePDTA by (simp add: parse_def stages warningsOf_def res)
qed

lemma wrongSignature_fourCC: "readFourCC wrongSignature 0 = Inr ''RIFX''"
  by (simp add: dataView_defs wrongSignature_length wrongSignature_nth char_codes)

lemma noSampleHeaders_findChunks:
  "findChunks noSampleHeaders = Inr \<lparr>INFO = 12, SDTA = 48, PDTA = 76\<rparr>"
  by (simp add: findChunks_def findChunksStep_def dataView_defs noSampleHeaders_length
      noSampleHeaders_nth char_codes)

lemma noSampleHeaders_scanPDTA:
  "scanPDTA noSampleHeaders 76 =
     Inr [(''phdr'', \<lparr>offset = 96, csize = 76\<rparr>), (''pbag'', \<lparr>offset = 180, csize = 8\<rparr>),
          (''pgen'', \<lparr>offset = 196, csize = 8\<rparr>), (''inst'', \<lparr>offset = 212, csize = 44\<rparr>),
          (''ibag'', \<lparr>offset = 264, csize = 12\<rparr>), (''igen'', \<lparr>offset = 284, csize = 20\<rparr>)]"
  by (simp add: scanPDTA_def scanPDTAStep_def dataView_defs noSampleHeaders_length
      noSampleHeaders_nth char_codes)

subsection \<open>Rejected files\<close>

text \<open>
  Claim C6. For every byte buffer, \<open>parse\<close> throws (its result is an error wrapped by
  its \<open>catch\<close>, never a bank) when the first four bytes are not \<open>RIFF\<close> or bytes 8 to
  11 are not \<open>sfbk\<close>, and when the scan of the \<open>pdta\<close> list, where the top-level
  scan succeeds and finds that list, yields no sub-chunk of one of the seven required
  ids, the sample-header chunk \<open>shdr\<close> among them; a parse that returns a bank has read
  both signatures and found all seven in that scan.
\<close>

theorem parse_rejects_malformed:
  "(readFourCC b 0 \<noteq> Inr ''RIFF'' \<or> readFourCC b 8 \<noteq> Inr ''sfbk''
      \<longrightarrow> (\<exists>e. parse b = Inl (SF2ParseError e)))
   \<and> (findChunks b = Inr chunks \<and> scanPDTA b (PDTA chunks) = Inr subs
        \<and> c \<in> set [''phdr'', ''pbag'', ''pgen'', ''inst'', ''ibag'', ''igen'', ''shdr'']
        \<and> map_of subs c = None
      \<longrightarrow> (\<exists>e. parse b = Inl (SF2ParseError e)))
   \<and> (parse b = Inr r
      \<longrightarrow> readFourCC b 0 = Inr ''RIFF'' \<and> readFourCC b 8 = Inr ''sfbk''
          \<and> (\<exists>found scanned. findChunks b = Inr found \<and> scanPDTA b (PDTA found) = Inr scanned
                \<and> (\<forall>k\<in>set [''phdr'', ''pbag'', ''pgen'', ''inst'', ''ibag'', ''igen'', ''shdr''].
                      map_of scanned k \<noteq> None)))"
proof (intro conjI impI)
  assume sig: "readFourCC b 0 \<noteq> Inr ''RIFF'' \<or> readFourCC b 8 \<noteq> Inr ''sfbk''"
  have "isl (parse b)"
  proof (rule ccontr)
    assume "\<not> isl (parse b)"
    then obtain r where "parse b = Inr r" by (cases "parse b") auto
    from parse_Inr_stages[OF this] validateRIFF_Inr sig show False by blast
  qed
  then show "\<exists>e. parse b = Inl (SF2ParseError e)" by (rule parse_Inl_wrapped)
next
  assume h: "findChunks b = Inr chunks \<and> scanPDTA b (PDTA chunks) = Inr subs
        \<and> c \<in> set [''phdr'', ''pbag'', ''pgen'', ''inst'', ''ibag'', ''igen'', ''shdr'']
        \<and> map_of subs c = None"
  have "isl (parse b)"
  proof (rule ccontr)
    assume "\<not> isl (parse b)"
    then obtain r where "parse b = Inr r" by (cases "parse b") auto
    from parse_Inr_stages[OF this] obtain s0 res where
      "parsePDTA b (PDTA chunks) s0 = Inr res"
      using h by auto
    from parsePDTA_Inr_required[OF this] h show False
      by (auto simp: requiredChunks_def)
  qed
  then show "\<exists>e. parse b = Inl (SF2ParseError e)" by (rule parse_Inl_wrapped)
next
  assume ok: "parse b = Inr r"
  from parse_Inr_stages[OF ok] obtain found s0 res where
    st: "validateRIFF b = Inr ()" "findChunks b = Inr found"
      "parsePDTA b (PDTA found) s0 = Inr res"
    by auto
  from validateRIFF_Inr[OF st(1)]
  show "readFourCC b 0 = Inr ''RIFF''" and "readFourCC b 8 = Inr ''sfbk''"
    by simp_all
  from parsePDTA_Inr_required[OF st(3)] st(2)
  show "\<exists>found scanned. findChunks b = Inr found \<and> scanPDTA b (PDTA found) = Inr scanned
          \<and> (\<forall>k\<in>set [''phdr'', ''pbag'', ''pgen'', ''inst'', ''ibag'', ''igen'', ''shdr''].
                map_of scanned k \<noteq> None)"
    by (auto simp: requiredChunks_def)
qed

theorem parse_rejects_malformed_witness:
  "readFourCC wrongSignature 0 = Inr ''RIFX''
   \<and> isl (parse wrongSignature)
   \<and> \<not> isl (parse smallBank)
   \<and> readFourCC smallBank 0 = Inr ''RIFF'' \<and> readFourCC smallBank 8 = Inr ''sfbk''
   \<and> map_sum id (map fst) (scanPDTA noSampleHeaders 76)
       = Inr [''phdr'', ''pbag'', ''pgen'', ''inst'', ''ibag'', ''igen'']
   \<and> isl (parse noSampleHeaders)"
proof -
  have sig: "readFourCC wrongSignature 0 \<noteq> Inr ''RIFF'' \<or> readFourCC wrongSignature 8 \<noteq> Inr ''sfbk''"
    by (simp add: wrongSignature_fourCC)
  have absent: "findChunks noSampleHeaders = Inr \<lparr>INFO = 12, SDTA = 48, PDTA = 76\<rparr>
      \<and> scanPDTA noSampleHeaders (PDTA \<lparr>INFO = 12, SDTA = 48, PDTA = 76\<rparr>)
          = Inr [(''phdr'', \<lparr>offset = 96, csize = 76\<rparr>), (''pbag'', \<lparr>offset = 180, csize = 8\<rparr>),
                 (''pgen'', \<lparr>offset = 196, csize = 8\<rparr>), (''inst'', \<lparr>offset = 212, csize = 44\<rparr>),
                 (''ibag'', \<lparr>offset = 264, csize = 12\<rparr>), (''igen'', \<lparr>offset = 284, csize = 20\<rparr>)]
      \<and> ''shdr'' \<in> set [''phdr'', ''pbag'', ''pgen'', ''inst'', ''ibag'', ''igen'', ''shdr'']
      \<and> map_of [(''phdr'', \<lparr>offset = 96, csize = 76\<rparr>), (''pbag'', \<lparr>offset = 180, csize = 8\<rparr>),
                 (''pgen'', \<lparr>offset = 196, csize = 8\<rparr>), (''inst'', \<lparr>offset = 212, csize = 44\<rparr>),
                 (''ibag'', \<lparr>offset = 264, csize = 12\<rparr>), (''igen'', \<lparr>offset = 284, csize = 20\<rparr>)]
           ''shdr'' = None"
    by (simp add: noSampleHeaders_findChunks noSampleHeaders_scanPDTA)
  have "\<exists>e. parse wrongSignature = Inl (SF2ParseError e)"
    using parse_rejects_malformed [of wrongSignature "\<lparr>INFO = 12, SDTA = 48, PDTA = 76\<rparr>" "[]"
        "''shdr''" "(bankA, [])"] sig
    by blast
  then have wrong: "isl (parse wrongSignature)"
    by auto
  have "\<exists>e. parse noSampleHeaders = Inl (SF2ParseError e)"
    using parse_rejects_malformed [of noSampleHeaders "\<lparr>INFO = 12, SDTA = 48, PDTA = 76\<rparr>"
        "[(''phdr'', \<lparr>offset = 96, csize = 76\<rparr>), (''pbag'', \<lparr>offset = 180, csize = 8\<rparr>),
          (''pgen'', \<lparr>offset = 196, csize = 8\<rparr>), (''inst'', \<lparr>offset = 212, csize = 44\<rparr>),
          (''ibag'', \<lparr>offset = 264, csize = 12\<rparr>), (''igen'', \<lparr>offset = 284, csize = 20\<rparr>)]"
        "''shdr''" "(bankA, [])"] absent
    by blast
  then have missing: "isl (parse noSampleHeaders)"
    by auto
  obtain r where r: "parse smallBank = Inr r"
    using parse_smallBank(1) by (cases "parse smallBank") auto
  have "readFourCC smallBank 0 = Inr ''RIFF'' \<and> readFourCC smallBank 8 = Inr ''sfbk''"
    using parse_rejects_malformed [of smallBank "\<lparr>INFO = 12, SDTA = 48, PDTA = 76\<rparr>" "[]"
        "''shdr''" r] r
    by blast
  with wrong missing show ?thesis
    by (simp add: wrongSignature_fourCC noSampleHeaders_scanPDTA parse_smallBank(1))
qed

subsection \<open>Sample records\<close>

lemma parseSDTA_Inr: "parseSDTA b off = Inr s0 \<Longrightarrow> s0 = []"
  by (auto simp: parseSDTA_def bindE_Inr_iff split: if_splits)

lemma length_buildSamples [simp]: "length (buildSamples smpl hs) = length hs"
  by (simp add: buildSamples_def)

lemma nth_buildSamples:
  "i < length hs \<Longrightarrow> buildSamples smpl hs ! i = buildSample smpl i (hs ! i)"
  by (simp add: buildSamples_def nth_enumerate_eq)

lemma invalidIndices_iff:
  "invalidIndices smpl h \<longleftrightarrow>
     \<not> (0 \<le> start h \<and> start h < endIdx h \<and> endIdx h \<le> int (length smpl))"
  by (auto simp: invalidIndices_def)

lemma parsePDTA_Inr_samples:
  assumes "parsePDTA b off [] = Inr res"
  shows "\<exists>subs shdr hs smpl.
           scanPDTA b off = Inr subs \<and> map_of subs ''shdr'' = Some shdr
           \<and> parseSampleHeaders b shdr = Inr hs \<and> sampleBlock b = Inr smpl
           \<and> fst res = map fst (buildSamples smpl hs)
           \<and> snd (snd (snd res)) = concat (map snd (buildSamples smpl hs))"
  using assms unfolding parsePDTA_def bindE_Inr_iff Let_def
  by (auto simp: getChunk_def split: option.splits)


lemma buildSample_valid:
  assumes "0 \<le> start h \<and> start h < endIdx h \<and> endIdx h \<le> int (length smpl)"
  shows "data (fst (buildSample smpl i h)) = slice_list smpl (nat (start h)) (nat (endIdx h))
         \<and> int (length (data (fst (buildSample smpl i h)))) = endIdx h - start h
         \<and> start (header (fst (buildSample smpl i h))) = start h
         \<and> endIdx (header (fst (buildSample smpl i h))) = endIdx h
         \<and> startLoop (header (fst (buildSample smpl i h))) = startLoop h
         \<and> endLoop (header (fst (buildSample smpl i h))) = endLoop h
         \<and> snd (buildSample smpl i h) = []"
  using assms by (auto simp: buildSample_def invalidIndices_iff slice_list_def)

lemma buildSample_invalid:
  assumes "\<not> (0 \<le> start h \<and> start h < endIdx h \<and> endIdx h \<le> int (length smpl))"
  shows "data (fst (buildSample smpl i h)) = []
         \<and> start (header (fst (buildSample smpl i h))) = 0
         \<and> endIdx (header (fst (buildSample smpl i h))) = 0
         \<and> startLoop (header (fst (buildSample smpl i h))) = 0
         \<and> endLoop (header (fst (buildSample smpl i h))) = 0
         \<and> pitchCorrection (header (fst (buildSample smpl i h))) = 0
         \<and> snd (buildSample smpl i h)
             = [InvalidIndices i (hname h) (start h) (endIdx h) (int (length smpl))]"
  using assms by (simp add: buildSample_def invalidIndices_iff)

text \<open>
  Claim C7, as amended. In the bank of a parse that returned there is one sample record
  per parsed sample header, in order. For a header with
  \<open>0 \<le> start < end \<le> blockLength\<close> the record holds the samples from \<open>start\<close> up to
  \<open>end\<close> of the block, \<open>end - start\<close> of them, and the loop points of the header as
  they are; for any other header it is a placeholder with no samples, with start, end,
  loop start, loop end and pitch correction 0, and a warning with the index, the name
  and the offending offsets has been written.
\<close>

theorem parse_samples_from_headers:
  assumes "parse b = Inr (d, ws)"
  shows "\<exists>chunks subs shdr hs smpl.
           findChunks b = Inr chunks \<and> scanPDTA b (PDTA chunks) = Inr subs
           \<and> map_of subs ''shdr'' = Some shdr
           \<and> parseSampleHeaders b shdr = Inr hs \<and> sampleBlock b = Inr smpl
           \<and> length (samples d) = length hs
           \<and> (\<forall>i<length hs.
                (0 \<le> start (hs ! i) \<and> start (hs ! i) < endIdx (hs ! i)
                   \<and> endIdx (hs ! i) \<le> int (length smpl)
                 \<longrightarrow> data (samples d ! i) = slice_list smpl (nat (start (hs ! i))) (nat (endIdx (hs ! i)))
                     \<and> int (length (data (samples d ! i))) = endIdx (hs ! i) - start (hs ! i)
                     \<and> startLoop (header (samples d ! i)) = startLoop (hs ! i)
                     \<and> endLoop (header (samples d ! i)) = endLoop (hs ! i))
                \<and> (\<not> (0 \<le> start (hs ! i) \<and> start (hs ! i) < endIdx (hs ! i)
                        \<and> endIdx (hs ! i) \<le> int (length smpl))
                 \<longrightarrow> data (samples d ! i) = []
                     \<and> start (header (samples d ! i)) = 0
                     \<and> endIdx (header (samples d ! i)) = 0
                     \<and> startLoop (header (samples d ! i)) = 0
                     \<and> endLoop (header (samples d ! i)) = 0
                     \<and> pitchCorrection (header (samples d ! i)) = 0
                     \<and> InvalidIndices i (hname (hs ! i)) (start (hs ! i)) (endIdx (hs ! i))
                          (int (length smpl)) \<in> set ws))"
proof -
  from parse_Inr_stages[OF assms] obtain chunks s0 res where
    st: "findChunks b = Inr chunks" "parseSDTA b (SDTA chunks) = Inr s0"
      "parsePDTA b (PDTA chunks) s0 = Inr res" "samples d = fst res" "ws = snd (snd (snd res))"
    by auto
  have "s0 = []" using st(2) by (rule parseSDTA_Inr)
  with st(3) have "parsePDTA b (PDTA chunks) [] = Inr res" by simp
  from parsePDTA_Inr_samples[OF this] obtain subs shdr hs smpl where
    pd: "scanPDTA b (PDTA chunks) = Inr subs" "map_of subs ''shdr'' = Some shdr"
      "parseSampleHeaders b shdr = Inr hs" "sampleBlock b = Inr smpl"
      "fst res = map fst (buildSamples smpl hs)"
      "snd (snd (snd res)) = concat (map snd (buildSamples smpl hs))"
    by blast
  have smp: "samples d = map fst (buildSamples smpl hs)"
    and wsq: "ws = concat (map snd (buildSamples smpl hs))"
    using st pd by simp_all
  have len: "length (samples d) = length hs"
    by (simp add: smp)
  have nth: "samples d ! i = fst (buildSample smpl i (hs ! i))" if "i < length hs" for i
    using that by (simp add: smp nth_buildSamples)
  have warn: "set (snd (buildSample smpl i (hs ! i))) \<subseteq> set ws" if "i < length hs" for i
  proof -
    have "buildSample smpl i (hs ! i) \<in> set (buildSamples smpl hs)"
      using that nth_buildSamples[OF that, of smpl] by (metis length_buildSamples nth_mem)
    then show ?thesis by (auto simp: wsq)
  qed
  have "\<forall>i<length hs.
          (0 \<le> start (hs ! i) \<and> start (hs ! i) < endIdx (hs ! i)
             \<and> endIdx (hs ! i) \<le> int (length smpl)
           \<longrightarrow> data (samples d ! i) = slice_list smpl (nat (start (hs ! i))) (nat (endIdx (hs ! i)))
               \<and> int (length (data (samples d ! i))) = endIdx (hs ! i) - start (hs ! i)
               \<and> startLoop (header (samples d ! i)) = startLoop (hs ! i)
               \<and> endLoop (header (samples d ! i)) = endLoop (hs ! i))
          \<and> (\<not> (0 \<le> start (hs ! i) \<and> start (hs ! i) < endIdx (hs ! i)
                  \<and> endIdx (hs ! i) \<le> int (length smpl))
           \<longrightarrow> data (samples d ! i) = []
               \<and> start (header (samples d ! i)) = 0
               \<and> endIdx (header (samples d ! i)) = 0
               \<and> startLoop (header (samples d ! i)) = 0
               \<and> endLoop (header (samples d ! i)) = 0
               \<and> pitchCorrection (header (samples d ! i)) = 0
               \<and> InvalidIndices i (hname (hs ! i)) (start (hs ! i)) (endIdx (hs ! i))
                    (int (length smpl)) \<in> set ws)"
  proof (intro allI impI conjI)
    fix i assume i: "i < length hs"
    {
      assume ok: "0 \<le> start (hs ! i) \<and> start (hs ! i) < endIdx (hs ! i)
                   \<and> endIdx (hs ! i) \<le> int (length smpl)"
      note v = buildSample_valid[OF ok, of i, folded nth[OF i]]
      from v show "data (samples d ! i) = slice_list smpl (nat (start (hs ! i))) (nat (endIdx (hs ! i)))"
        by blast
      from v show "int (length (data (samples d ! i))) = endIdx (hs ! i) - start (hs ! i)"
        by blast
      from v show "startLoop (header (samples d ! i)) = startLoop (hs ! i)"
        by blast
      from v show "endLoop (header (samples d ! i)) = endLoop (hs ! i)"
        by blast
    }
    {
      assume bad: "\<not> (0 \<le> start (hs ! i) \<and> start (hs ! i) < endIdx (hs ! i)
                        \<and> endIdx (hs ! i) \<le> int (length smpl))"
      note w = buildSample_invalid[OF bad, of i, folded nth[OF i]]
      from w show "data (samples d ! i) = []"
        by blast
      from w show "start (header (samples d ! i)) = 0"
        by blast
      from w show "endIdx (header (samples d ! i)) = 0"
        by blast
      from w show "startLoop (header (samples d ! i)) = 0"
        by blast
      from w show "endLoop (header (samples d ! i)) = 0"
        by blast
      from w show "pitchCorrection (header (samples d ! i)) = 0"
        by blast
      from buildSample_invalid[OF bad, of i] warn[OF i]
      show "InvalidIndices i (hname (hs ! i)) (start (hs ! i)) (endIdx (hs ! i))
              (int (length smpl)) \<in> set ws"
        by simp
    }
  qed
  with st(1) pd(1-4) len show ?thesis by blast
qed

theorem parse_samples_from_headers_witness:
  "\<exists>d ws. parse smallBank = Inr (d, ws)
     \<and> length (samples d) = 3
     \<and> data (samples d ! 1) = slice_list [100, - 200, 300, - 400] 2 4
     \<and> startLoop (header (samples d ! 1)) = 2 \<and> endLoop (header (samples d ! 1)) = 4
     \<and> data (samples d ! 2) = []
     \<and> startLoop (header (samples d ! 2)) = 0 \<and> endLoop (header (samples d ! 2)) = 0
     \<and> InvalidIndices 2 [] 4 9 4 \<in> set ws"
proof -
  obtain d ws where p: "parse smallBank = Inr (d, ws)"
    using parse_smallBank(1) by (cases "parse smallBank") auto
  from parse_samples_from_headers [OF p] obtain chunks subs shdr hs smpl where
    h: "findChunks smallBank = Inr chunks" "scanPDTA smallBank (PDTA chunks) = Inr subs"
      "map_of subs ''shdr'' = Some shdr" "parseSampleHeaders smallBank shdr = Inr hs"
      "sampleBlock smallBank = Inr smpl" "length (samples d) = length hs"
    and each: "\<forall>i<length hs.
                (0 \<le> start (hs ! i) \<and> start (hs ! i) < endIdx (hs ! i)
                   \<and> endIdx (hs ! i) \<le> int (length smpl)
                 \<longrightarrow> data (samples d ! i) = slice_list smpl (nat (start (hs ! i))) (nat (endIdx (hs ! i)))
                     \<and> int (length (data (samples d ! i))) = endIdx (hs ! i) - start (hs ! i)
                     \<and> startLoop (header (samples d ! i)) = startLoop (hs ! i)
                     \<and> endLoop (header (samples d ! i)) = endLoop (hs ! i))
                \<and> (\<not> (0 \<le> start (hs ! i) \<and> start (hs ! i) < endIdx (hs ! i)
                        \<and> endIdx (hs ! i) \<le> int (length smpl))
                 \<longrightarrow> data (samples d ! i) = []
                     \<and> start (header (samples d ! i)) = 0
                     \<and> endIdx (header (samples d ! i)) = 0
                     \<and> startLoop (header (samples d ! i)) = 0
                     \<and> endLoop (header (samples d ! i)) = 0
                     \<and> pitchCorrection (header (samples d ! i)) = 0
                     \<and> InvalidIndices i (hname (hs ! i)) (start (hs ! i)) (endIdx (hs ! i))
                          (int (length smpl)) \<in> set ws)"
    by blast
  have chunks: "chunks = \<lparr>INFO = 12, SDTA = 48, PDTA = 76\<rparr>"
    using h(1) by (simp add: smallBank_findChunks)
  have shdr: "shdr = \<lparr>offset = 312, csize = 184\<rparr>"
    using h(2,3) by (auto simp: chunks smallBank_scanPDTA)
  have hs: "hs = [\<lparr>start = 0, endIdx = 2, startLoop = 0, endLoop = 2, sampleRate = 48000,
            originalPitch = 60, pitchCorrection = 0, sampleLink = 1, sampleType = 4,
            hname = ''L''\<rparr>,
          \<lparr>start = 2, endIdx = 4, startLoop = 2, endLoop = 4, sampleRate = 48000,
            originalPitch = 60, pitchCorrection = 0, sampleLink = 0, sampleType = 2,
            hname = ''R''\<rparr>,
          \<lparr>start = 4, endIdx = 9, startLoop = 4, endLoop = 9, sampleRate = 0,
            originalPitch = 0, pitchCorrection = 5, sampleLink = 0, sampleType = 1,
            hname = []\<rparr>]"
    using h(4) by (simp add: shdr smallBank_sampleHeaders)
  have smpl: "smpl = [100, - 200, 300, - 400]"
    using h(5) by (simp add: smallBank_sampleBlock)
  have one: "data (samples d ! 1) = slice_list [100, - 200, 300, - 400] 2 4
      \<and> startLoop (header (samples d ! 1)) = 2 \<and> endLoop (header (samples d ! 1)) = 4"
    using each [rule_format, of 1] by (simp add: hs smpl)
  have two: "data (samples d ! 2) = []
      \<and> startLoop (header (samples d ! 2)) = 0 \<and> endLoop (header (samples d ! 2)) = 0
      \<and> InvalidIndices 2 [] 4 9 4 \<in> set ws"
    using each [rule_format, of 2] by (simp add: hs smpl)
  have "length (samples d) = 3"
    using h(6) by (simp add: hs)
  with p one two show ?thesis by blast
qed

text \<open>
  Claim C7, as stated, fails on the loop invariant: the small bank parses, and of its
  three sample records only the first has \<open>loopStart < loopEnd \<le> pcm.length\<close>. The
  second, from a header inside the block (samples 2..4, looping over 2..4), keeps loop
  points that are offsets into the block; the third is the placeholder, whose loop points
  are both 0.
\<close>

theorem loop_invariant_counterexample:
  "\<not> isl (parse smallBank)
   \<and> map loopInvariant (samplesOf (parse smallBank)) = [True, False, False]"
  by (simp add: parse_smallBank loopInvariant_def)

section \<open>Default ranges of a zone\<close>

lemma applyGenerator_keyRange:
  "gtype g \<noteq> 43 \<Longrightarrow> keyRange (applyGenerator z g) = keyRange z"
  by (simp add: applyGenerator_def split: GenAmount.splits)

lemma applyGenerator_velRange:
  "gtype g \<noteq> 44 \<Longrightarrow> velRange (applyGenerator z g) = velRange z"
  by (simp add: applyGenerator_def split: GenAmount.splits)

lemma foldl_applyGenerator_keyRange:
  "\<forall>g\<in>set gens. gtype g \<noteq> 43 \<Longrightarrow> keyRange (foldl applyGenerator z gens) = keyRange z"
  by (induction gens arbitrary: z) (simp_all add: applyGenerator_keyRange)

lemma foldl_applyGenerator_velRange:
  "\<forall>g\<in>set gens. gtype g \<noteq> 44 \<Longrightarrow> velRange (foldl applyGenerator z gens) = velRange z"
  by (induction gens arbitrary: z) (simp_all add: applyGenerator_velRange)

lemma buildZone_keyRange:
  "\<forall>g\<in>set gens. gtype g \<noteq> 43 \<Longrightarrow> keyRange (buildZone gens) = \<lparr>low = 0, high = 127\<rparr>"
  by (simp add: buildZone_def foldl_applyGenerator_keyRange) (simp add: defaultZone_def)

lemma buildZone_velRange:
  "\<forall>g\<in>set gens. gtype g \<noteq> 44 \<Longrightarrow> velRange (buildZone gens) = \<lparr>low = 0, high = 127\<rparr>"
  by (simp add: buildZone_def foldl_applyGenerator_velRange) (simp add: defaultZone_def)

text \<open>
  Claim C10. A zone built from generators none of which is a key range (type 43) has
  the key range 0..127, and one built from generators none of which is a velocity range
  (type 44) has the velocity range 0..127; with neither, the zone passes the test of
  \<open>selectZones\<close> for every note and velocity from 0 to 127, and when it is a zone of
  the first preset it is among the zones selected.
\<close>

theorem buildZone_default_ranges:
  "((\<forall>g\<in>set gens. gtype g \<noteq> 43) \<longrightarrow> keyRange (buildZone gens) = \<lparr>low = 0, high = 127\<rparr>)
   \<and> ((\<forall>g\<in>set gens. gtype g \<noteq> 44) \<longrightarrow> velRange (buildZone gens) = \<lparr>low = 0, high = 127\<rparr>)
   \<and> ((\<forall>g\<in>set gens. gtype g \<noteq> 43 \<and> gtype g \<noteq> 44)
         \<and> 0 \<le> n \<and> n \<le> 127 \<and> 0 \<le> vel \<and> vel \<le> 127
       \<longrightarrow> zoneMatches n vel (buildZone gens)
           \<and> (presets sf2 = pr # prs \<and> buildZone gens \<in> set (zones pr)
                \<longrightarrow> buildZone gens \<in> set (selectZones sf2 n vel)))"
proof (intro conjI impI)
  assume "\<forall>g\<in>set gens. gtype g \<noteq> 43"
  then show "keyRange (buildZone gens) = \<lparr>low = 0, high = 127\<rparr>"
    by (rule buildZone_keyRange)
next
  assume "\<forall>g\<in>set gens. gtype g \<noteq> 44"
  then show "velRange (buildZone gens) = \<lparr>low = 0, high = 127\<rparr>"
    by (rule buildZone_velRange)
next
  assume h: "(\<forall>g\<in>set gens. gtype g \<noteq> 43 \<and> gtype g \<noteq> 44)
         \<and> 0 \<le> n \<and> n \<le> 127 \<and> 0 \<le> vel \<and> vel \<le> 127"
  then have "keyRange (buildZone gens) = \<lparr>low = 0, high = 127\<rparr>"
    and "velRange (buildZone gens) = \<lparr>low = 0, high = 127\<rparr>"
    by (simp_all add: buildZone_keyRange buildZone_velRange)
  with h show m: "zoneMatches n vel (buildZone gens)"
    by (simp add: zoneMatches_def)
  assume "presets sf2 = pr # prs \<and> buildZone gens \<in> set (zones pr)"
  with m show "buildZone gens \<in> set (selectZones sf2 n vel)"
    by (simp add: selectZones_def)
qed

theorem buildZone_default_ranges_witness:
  "buildZone leftGens = zoneA
   \<and> keyRange (buildZone leftGens) = \<lparr>low = 0, high = 127\<rparr>
   \<and> velRange (buildZone leftGens) = \<lparr>low = 0, high = 127\<rparr>
   \<and> buildZone leftGens \<in> set (selectZones bankA 0 0)
   \<and> buildZone leftGens \<in> set (selectZones bankA 60 100)
   \<and> buildZone leftGens \<in> set (selectZones bankA 127 127)"
proof -
  have free: "\<forall>g\<in>set leftGens. gtype g \<noteq> 43 \<and> gtype g \<noteq> 44"
    by (simp add: leftGens_def)
  have z: "buildZone leftGens = zoneA"
    by (simp add: buildZone_def leftGens_def applyGenerator_def defaultZone_def zoneA_def)
  have pr: "presets bankA = presetA # [] \<and> buildZone leftGens \<in> set (zones presetA)"
    by (simp add: bankA_def presetA_def z)
  show ?thesis
    using buildZone_default_ranges [of leftGens 0 0 bankA presetA "[]"]
      buildZone_default_ranges [of leftGens 60 100 bankA presetA "[]"]
      buildZone_default_ranges [of leftGens 127 127 bankA presetA "[]"]
      free pr z
    by simp
qed

end
